theory Spec2Isabelle
  imports Complex_Main "HOL-Library.Sublist" "HOL-Library.AList"
begin

section \<open>Movie recommendation engine: similarity scoring and ranking\<close>

text \<open>
  Shallow embedding of the similarity and ranking functions of the movie recommendation
  system: the module of algorithms with stopword filtering, the two-row edit distance, the
  title-matching cascade, the search and the franchise bonus; and, for the edit distance,
  the copy of the module under \<^verbatim>\<open>js/\<close>, which fills the full matrix.

  Conventions of the embedding.
  \<^item> A JavaScript string is a list of UTF-16 code units. The embedding has the code units
    \<open>U+0000\<close> to \<open>U+00FF\<close> and, beyond them, \<open>U+0130\<close> (capital I with dot above) and
    \<open>U+0307\<close> (combining dot above): the lowercase form of \<open>U+0130\<close> is the two code units
    \<open>U+0069 U+0307\<close>, so that \<open>toLowerCase\<close> can lengthen a string, as it does in
    JavaScript. Case mapping and the whitespace class are those of JavaScript on these
    code units; a string literal \<open>js ''abc''\<close> is the string of the characters \<open>abc\<close>.
  \<^item> A JavaScript number that holds a count or an index is a \<^typ>\<open>nat\<close>; a score is a
    \<^typ>\<open>real\<close>: arithmetic is exact, the rounding of binary64 is not modelled.
  \<^item> A \<^verbatim>\<open>Set\<close> is a duplicate-free list in insertion order; a \<^verbatim>\<open>Map\<close> is an association
    list in insertion order.
\<close>

subsection \<open>Strings\<close>

datatype codeUnit = Latin1 char | CapitalIDot | CombiningDot

type_synonym jsstring = "codeUnit list"

definition js :: "string \<Rightarrow> jsstring" where
  "js s = map Latin1 s"

fun isSpace :: "codeUnit \<Rightarrow> bool" where
  \<comment> \<open>the class \<^verbatim>\<open>\s\<close> of a regular expression, which is also what \<^verbatim>\<open>trim\<close> strips\<close>
  "isSpace (Latin1 c) = ((of_char c :: nat) \<in> {9, 10, 11, 12, 13, 32, 160})"
| "isSpace CapitalIDot = False"
| "isSpace CombiningDot = False"

definition lowerChar :: "char \<Rightarrow> char" where
  "lowerChar c =
     (let n = (of_char c :: nat)
      in if (65 \<le> n \<and> n \<le> 90) \<or> (192 \<le> n \<and> n \<le> 222 \<and> n \<noteq> 215)
         then char_of (n + 32) else c)"

fun lowerUnit :: "codeUnit \<Rightarrow> jsstring" where
  "lowerUnit (Latin1 c) = [Latin1 (lowerChar c)]"
| "lowerUnit CapitalIDot = [Latin1 CHR ''i'', CombiningDot]"
| "lowerUnit CombiningDot = [CombiningDot]"

definition toLowerCase :: "jsstring \<Rightarrow> jsstring" where
  "toLowerCase s = concat (map lowerUnit s)"

definition trim :: "jsstring \<Rightarrow> jsstring" where
  "trim s = rev (dropWhile isSpace (rev (dropWhile isSpace s)))"

fun startsWith :: "jsstring \<Rightarrow> jsstring \<Rightarrow> bool" where
  "startsWith s [] = True"
| "startsWith [] (p # ps) = False"
| "startsWith (c # cs) (p # ps) = (c = p \<and> startsWith cs ps)"

fun includesStr :: "jsstring \<Rightarrow> jsstring \<Rightarrow> bool" where
  \<comment> \<open>\<^verbatim>\<open>s.includes(sub)\<close>: \<open>sub\<close> occurs in \<open>s\<close> as a contiguous run\<close>
  "includesStr [] sub = (sub = [])"
| "includesStr (c # cs) sub = (startsWith (c # cs) sub \<or> includesStr cs sub)"

fun splitOn :: "(codeUnit \<Rightarrow> bool) \<Rightarrow> jsstring \<Rightarrow> bool \<Rightarrow> jsstring \<Rightarrow> jsstring list" where
  \<comment> \<open>\<^verbatim>\<open>s.split(/[...]+/)\<close>: \<open>cur\<close> is the piece being read, \<open>insep\<close> says that the last
      character read was a separator. A leading or trailing run of separators gives an
      empty first or last piece, as in JavaScript.\<close>
  "splitOn sep cur insep [] = [cur]"
| "splitOn sep cur insep (c # cs) =
     (if sep c then (if insep then splitOn sep cur True cs else cur # splitOn sep [] True cs)
      else splitOn sep (cur @ [c]) False cs)"

definition splitWs :: "jsstring \<Rightarrow> jsstring list" where
  \<comment> \<open>\<^verbatim>\<open>s.split(/\s+/)\<close>\<close>
  "splitWs s = splitOn isSpace [] False s"

definition splitWsColon :: "jsstring \<Rightarrow> jsstring list" where
  \<comment> \<open>\<^verbatim>\<open>s.split(/[\s:]+/)\<close>\<close>
  "splitWsColon s = splitOn (\<lambda>c. isSpace c \<or> c = Latin1 CHR '':'') [] False s"

fun join :: "jsstring \<Rightarrow> jsstring list \<Rightarrow> jsstring" where
  \<comment> \<open>\<^verbatim>\<open>xs.join(sep)\<close>\<close>
  "join sep [] = []"
| "join sep [x] = x"
| "join sep (x # y # ys) = x @ sep @ join sep (y # ys)"

fun isLowerAlpha :: "codeUnit \<Rightarrow> bool" where
  "isLowerAlpha (Latin1 c) = ((97::nat) \<le> of_char c \<and> (of_char c :: nat) \<le> 122)"
| "isLowerAlpha CapitalIDot = False"
| "isLowerAlpha CombiningDot = False"

fun isDigit :: "codeUnit \<Rightarrow> bool" where
  "isDigit (Latin1 c) = ((48::nat) \<le> of_char c \<and> (of_char c :: nat) \<le> 57)"
| "isDigit CapitalIDot = False"
| "isDigit CombiningDot = False"

definition allLowerAlpha :: "jsstring \<Rightarrow> bool" where
  \<comment> \<open>\<^verbatim>\<open>/^[a-z]+$/.test(w)\<close>\<close>
  "allLowerAlpha w = (w \<noteq> [] \<and> list_all isLowerAlpha w)"

definition allDigits :: "jsstring \<Rightarrow> bool" where
  \<comment> \<open>\<^verbatim>\<open>/^[0-9]+$/.test(w)\<close>\<close>
  "allDigits w = (w \<noteq> [] \<and> list_all isDigit w)"

definition newSet :: "'a list \<Rightarrow> 'a list" where
  \<comment> \<open>\<^verbatim>\<open>new Set(xs)\<close>: the first occurrence of each element, in order\<close>
  "newSet xs = rev (remdups (rev xs))"

subsection \<open>Text normalizer\<close>

definition STOPWORDS :: "jsstring list" where
  "STOPWORDS = map js
    [''the'', ''a'', ''an'', ''and'', ''or'', ''but'', ''in'', ''on'', ''at'', ''to'', ''for'',
     ''of'', ''with'', ''by'', ''from'', ''as'', ''is'', ''was'', ''are'', ''were'', ''been'',
     ''be'', ''have'', ''has'', ''had'', ''do'', ''does'', ''did'', ''will'', ''would'',
     ''could'', ''should'', ''may'', ''might'', ''must'', ''can'', ''this'', ''that'',
     ''these'', ''those'', ''it'', ''its'', ''his'', ''her'', ''their'', ''our'']"

definition preprocessText :: "jsstring \<Rightarrow> jsstring list" where
  "preprocessText text =
     filter (\<lambda>word. length word > 2 \<and> word \<notin> set STOPWORDS \<and> allLowerAlpha word)
            (splitWs (toLowerCase text))"

text \<open>
  The source keeps the results of \<open>preprocessText\<close> in a module-level map of at most 1000
  entries. \<open>preprocessTextCached\<close> is the function as written, with the map passed in and
  returned; \<open>cacheOk\<close> says that every entry of the map is a result of \<open>preprocessText\<close>.
\<close>

definition preprocessTextCached ::
  "(jsstring \<times> jsstring list) list \<Rightarrow> jsstring \<Rightarrow> jsstring list \<times> (jsstring \<times> jsstring list) list" where
  "preprocessTextCached cache text =
     (case map_of cache text of
        Some r \<Rightarrow> (r, cache)
      | None \<Rightarrow>
          (let result = preprocessText text
           in (result, if length cache < 1000 then AList.update text result cache else cache)))"

definition cacheOk :: "(jsstring \<times> jsstring list) list \<Rightarrow> bool" where
  "cacheOk cache = list_all (\<lambda>(t, r). r = preprocessText t) cache"

subsection \<open>Edit distance\<close>

definition min3 :: "nat \<Rightarrow> nat \<Rightarrow> nat \<Rightarrow> nat" where
  \<comment> \<open>\<^verbatim>\<open>Math.min(a, b, c)\<close>\<close>
  "min3 a b c = min a (min b c)"

definition rowStep :: "jsstring \<Rightarrow> jsstring \<Rightarrow> nat \<Rightarrow> nat list \<Rightarrow> nat \<Rightarrow> nat list \<Rightarrow> nat list" where
  \<comment> \<open>the body of the inner loop of the two-row edit distance, at column \<open>j\<close> of row \<open>i\<close>\<close>
  "rowStep s1 s2 i prevRow j currRow =
     currRow[j := (if s1 ! (i - 1) = s2 ! (j - 1) then prevRow ! (j - 1)
                   else min3 (prevRow ! j + 1) (currRow ! (j - 1) + 1) (prevRow ! (j - 1) + 1))]"

definition fillRow :: "jsstring \<Rightarrow> jsstring \<Rightarrow> nat \<Rightarrow> nat list \<Rightarrow> nat list \<Rightarrow> nat list" where
  \<comment> \<open>one pass of the outer loop: row \<open>i\<close> is written into \<open>currRow\<close>\<close>
  "fillRow s1 s2 i prevRow currRow =
     fold (rowStep s1 s2 i prevRow) [1..<length s2 + 1] (currRow[0 := i])"

definition levRows :: "jsstring \<Rightarrow> jsstring \<Rightarrow> nat list \<times> nat list" where
  \<comment> \<open>the two rows after the outer loop, the rows being swapped after each pass\<close>
  "levRows s1 s2 =
     (let len2 = length s2;
          prevRow = replicate (len2 + 1) 0;
          currRow = replicate (len2 + 1) 0;
          prevRow = fold (\<lambda>j row. row[j := j]) [0..<len2 + 1] prevRow
      in fold (\<lambda>i (prevRow, currRow). (fillRow s1 s2 i prevRow currRow, prevRow))
              [1..<length s1 + 1] (prevRow, currRow))"

definition levenshteinDistance :: "jsstring \<Rightarrow> jsstring \<Rightarrow> nat" where
  "levenshteinDistance str1 str2 =
     (let s1 = toLowerCase str1;
          s2 = toLowerCase str2;
          len1 = length s1;
          len2 = length s2;
          lengthDiff = nat \<bar>int len1 - int len2\<bar>
      in if real lengthDiff > real (max len1 len2) * 0.5 then max len1 len2
         else fst (levRows s1 s2) ! len2)"

definition levenshteinSimilarity :: "jsstring \<Rightarrow> jsstring \<Rightarrow> real" where
  "levenshteinSimilarity str1 str2 =
     (let distance = levenshteinDistance str1 str2;
          maxLength = max (length str1) (length str2)
      in if maxLength = 0 then 1 else 1 - real distance / real maxLength)"

text \<open>
  The copy of the module under \<^verbatim>\<open>js/\<close> fills the whole table \<open>dp\<close>, with no test on the
  lengths.
\<close>

definition matrixStep :: "jsstring \<Rightarrow> jsstring \<Rightarrow> nat \<Rightarrow> nat \<Rightarrow> nat list list \<Rightarrow> nat list list" where
  \<comment> \<open>the body of the inner loop of the full-matrix edit distance\<close>
  "matrixStep s1 s2 i j dp =
     dp[i := (dp ! i)[j := (if s1 ! (i - 1) = s2 ! (j - 1) then dp ! (i - 1) ! (j - 1)
                            else min3 (dp ! (i - 1) ! j + 1) (dp ! i ! (j - 1) + 1)
                                      (dp ! (i - 1) ! (j - 1) + 1))]]"

definition fillMatrixRow :: "jsstring \<Rightarrow> jsstring \<Rightarrow> nat \<Rightarrow> nat list list \<Rightarrow> nat list list" where
  "fillMatrixRow s1 s2 i dp = fold (matrixStep s1 s2 i) [1..<length s2 + 1] dp"

definition levMatrix :: "jsstring \<Rightarrow> jsstring \<Rightarrow> nat list list" where
  "levMatrix s1 s2 =
     (let len1 = length s1;
          len2 = length s2;
          dp = replicate (len1 + 1) (replicate (len2 + 1) 0);
          dp = fold (\<lambda>i dp. dp[i := (dp ! i)[0 := i]]) [0..<len1 + 1] dp;
          dp = fold (\<lambda>j dp. dp[0 := (dp ! 0)[j := j]]) [0..<len2 + 1] dp
      in fold (fillMatrixRow s1 s2) [1..<len1 + 1] dp)"

definition levenshteinDistance_full :: "jsstring \<Rightarrow> jsstring \<Rightarrow> nat" where
  "levenshteinDistance_full str1 str2 =
     (let s1 = toLowerCase str1;
          s2 = toLowerCase str2
      in levMatrix s1 s2 ! length s1 ! length s2)"

text \<open>
  The entry \<open>(i, j)\<close> of the table that both versions compute: the edit distance between
  the first \<open>i\<close> characters of \<open>s1\<close> and the first \<open>j\<close> characters of \<open>s2\<close>, by the recurrence
  of the loops.
\<close>

fun cell :: "jsstring \<Rightarrow> jsstring \<Rightarrow> nat \<Rightarrow> nat \<Rightarrow> nat" where
  "cell s1 s2 0 j = j"
| "cell s1 s2 (Suc i) 0 = Suc i"
| "cell s1 s2 (Suc i) (Suc j) =
     (if s1 ! i = s2 ! j then cell s1 s2 i j
      else min3 (cell s1 s2 i (Suc j) + 1) (cell s1 s2 (Suc i) j + 1) (cell s1 s2 i j + 1))"

subsection \<open>Set and vector similarity\<close>

definition jaccardSimilarity :: "jsstring \<Rightarrow> jsstring \<Rightarrow> real" where
  "jaccardSimilarity str1 str2 =
     (let set1 = newSet (preprocessText str1);
          set2 = newSet (preprocessText str2)
      in if length set1 = 0 \<or> length set2 = 0 then 0
         else
           (let intersectionCount =
                  fold (\<lambda>item count. if item \<in> set set2 then count + 1 else count) set1 (0::nat);
                unionSize = length set1 + length set2 - intersectionCount
            in if unionSize = 0 then 0 else real intersectionCount / real unionSize))"

definition getOr0 :: "(jsstring \<times> nat) list \<Rightarrow> jsstring \<Rightarrow> nat" where
  \<comment> \<open>\<^verbatim>\<open>freq.get(word) || 0\<close>\<close>
  "getOr0 freq word = (case map_of freq word of None \<Rightarrow> 0 | Some c \<Rightarrow> c)"

definition frequencies :: "jsstring list \<Rightarrow> (jsstring \<times> nat) list" where
  \<comment> \<open>the loop \<^verbatim>\<open>for (const word of words) freq.set(word, (freq.get(word) || 0) + 1)\<close>\<close>
  "frequencies words = fold (\<lambda>word freq. AList.update word (getOr0 freq word + 1) freq) words []"

definition cosineSimilarity :: "jsstring \<Rightarrow> jsstring \<Rightarrow> real" where
  "cosineSimilarity str1 str2 =
     (let words1 = preprocessText str1;
          words2 = preprocessText str2
      in if length words1 = 0 \<or> length words2 = 0 then 0
         else
           (let freq1 = frequencies words1;
                freq2 = frequencies words2;
                allWords = newSet (map fst freq1 @ map fst freq2);
                (dotProduct, magnitude1, magnitude2) =
                  fold (\<lambda>word (d, m1, m2).
                          (let count1 = getOr0 freq1 word;
                               count2 = getOr0 freq2 word
                           in (d + count1 * count2, m1 + count1 * count1, m2 + count2 * count2)))
                       allWords (0, 0, 0);
                magnitude1 = sqrt (real magnitude1);
                magnitude2 = sqrt (real magnitude2)
            in if magnitude1 = 0 \<or> magnitude2 = 0 then 0
               else real dotProduct / (magnitude1 * magnitude2)))"

subsection \<open>Attribute comparators and the score combiner\<close>

definition genreSimilarity :: "jsstring list \<Rightarrow> jsstring list \<Rightarrow> real" where
  "genreSimilarity genres1 genres2 =
     (if length genres1 = 0 \<or> length genres2 = 0 then 0
      else
        (let set1 = newSet (map toLowerCase genres1);
             set2 = newSet (map toLowerCase genres2);
             intersection = newSet (filter (\<lambda>x. x \<in> set set2) set1);
             union = newSet (set1 @ set2)
         in if length union = 0 then 0 else real (length intersection) / real (length union)))"

definition ratingSimilarity :: "real \<Rightarrow> real \<Rightarrow> real" where
  "ratingSimilarity rating1 rating2 = (let difference = \<bar>rating1 - rating2\<bar> in 1 - difference / 10)"

definition falsy :: "jsstring option \<Rightarrow> bool" where
  \<comment> \<open>\<^verbatim>\<open>!director\<close>: absent, or the empty string\<close>
  "falsy d = (case d of None \<Rightarrow> True | Some s \<Rightarrow> s = [])"

definition directorSimilarity :: "jsstring option \<Rightarrow> jsstring option \<Rightarrow> real" where
  "directorSimilarity director1 director2 =
     (if falsy director1 \<or> falsy director2 then 0
      else if toLowerCase (the director1) = toLowerCase (the director2) then 1 else 0)"

definition combinedSimilarity :: "jsstring \<Rightarrow> jsstring \<Rightarrow> real" where
  "combinedSimilarity str1 str2 =
     (let jaccard = jaccardSimilarity str1 str2;
          cosine = cosineSimilarity str1 str2;
          levenshtein = levenshteinSimilarity str1 str2
      in (cosine * 0.6) + (jaccard * 0.3) + (levenshtein * 0.1))"

datatype ident = NumId int | StrId jsstring

record movie =
  movie_id :: ident
  title :: jsstring
  year :: int
  rating :: real
  genre :: "jsstring list"
  description :: jsstring
  director :: "jsstring option"

definition textSimilarityBy :: "jsstring \<Rightarrow> jsstring \<Rightarrow> jsstring \<Rightarrow> real" where
  \<comment> \<open>the \<^verbatim>\<open>switch (algorithm)\<close> of \<^verbatim>\<open>calculateMovieSimilarity\<close>\<close>
  "textSimilarityBy algorithm movieText query =
     (if algorithm = js ''jaccard'' then jaccardSimilarity movieText query
      else if algorithm = js ''cosine'' then cosineSimilarity movieText query
      else if algorithm = js ''levenshtein'' then levenshteinSimilarity movieText query
      else combinedSimilarity movieText query)"

definition calculateMovieSimilarity :: "movie \<Rightarrow> jsstring \<Rightarrow> jsstring \<Rightarrow> movie option \<Rightarrow> real" where
  "calculateMovieSimilarity m query algorithm referenceMovie =
     (let movieText = description m @ js '' '' @ description m @ js '' '' @ join (js '' '') (genre m);
          textSimilarity = textSimilarityBy algorithm movieText query
      in case referenceMovie of
           Some r \<Rightarrow>
             (let genreScore = genreSimilarity (genre m) (genre r);
                  ratingScore = ratingSimilarity (rating m) (rating r);
                  directorScore = directorSimilarity (director m) (director r)
              in (textSimilarity * 0.365) + (genreScore * 0.25) + (ratingScore * 0.35)
                 + (directorScore * 0.035))
         | None \<Rightarrow> textSimilarity)"

subsection \<open>Fuzzy title resolver\<close>

definition longWords :: "jsstring \<Rightarrow> jsstring list" where
  \<comment> \<open>\<^verbatim>\<open>new Set(s.split(/\s+/).filter(w => w.length > 2))\<close>\<close>
  "longWords s = newSet (filter (\<lambda>w. length w > 2) (splitWs s))"

definition titleMatch :: "jsstring \<Rightarrow> jsstring \<Rightarrow> jsstring \<Rightarrow> real" where
  \<comment> \<open>the cascade of strategies that \<^verbatim>\<open>findClosestMatch\<close> and \<^verbatim>\<open>searchMovies\<close> both
      apply to one title; \<open>searchLower\<close> is computed once by the caller\<close>
  "titleMatch searchTerm searchLower movieTitle =
     (let titleLower = toLowerCase movieTitle
      in if titleLower = searchLower then 1.0
         else if includesStr titleLower searchLower
           then 0.85 + (real (length searchLower) / real (length titleLower)) * 0.15
         else if includesStr searchLower titleLower then 0.80
         else
           (let searchWords = longWords searchLower;
                titleWords = longWords titleLower
            in if length searchWords > 0 \<and> length titleWords > 0
               then
                 (let matchingWords =
                        fold (\<lambda>word n. if word \<in> set titleWords then n + 1 else n)
                             searchWords (0::nat);
                      wordOverlap =
                        real matchingWords / real (max (length searchWords) (length titleWords));
                      levenshtein = levenshteinSimilarity movieTitle searchTerm
                  in (wordOverlap * 0.7) + (levenshtein * 0.3))
               else levenshteinSimilarity movieTitle searchTerm))"

definition findClosestMatch :: "movie list \<Rightarrow> jsstring \<Rightarrow> movie option \<times> real" where
  "findClosestMatch movies searchTerm =
     (let searchLower = trim (toLowerCase searchTerm)
      in fold (\<lambda>m (bestMatch, highestSimilarity).
                 (let similarity = titleMatch searchTerm searchLower (title m)
                  in if similarity > highestSimilarity then (Some m, similarity)
                     else (bestMatch, highestSimilarity)))
              movies (None, 0))"

record searchResult = movie +
  searchScore :: real
  titleScore :: real
  contentScore :: real

definition searchEntry :: "jsstring \<Rightarrow> jsstring \<Rightarrow> movie \<Rightarrow> searchResult" where
  \<comment> \<open>the function mapped over the catalog by \<^verbatim>\<open>searchMovies\<close>\<close>
  "searchEntry searchTerm searchLower m =
     (let titleScore = titleMatch searchTerm searchLower (title m);
          contentText = description m @ js '' '' @ join (js '' '') (genre m);
          contentScore = combinedSimilarity contentText searchTerm;
          overallScore = (titleScore * 0.80) + (contentScore * 0.20)
      in \<lparr>movie_id = movie_id m, title = title m, year = year m, rating = rating m,
          genre = genre m, description = description m, director = director m,
          searchScore = overallScore, titleScore = titleScore, contentScore = contentScore\<rparr>)"

definition searchMovies :: "movie list \<Rightarrow> jsstring \<Rightarrow> nat \<Rightarrow> searchResult list" where
  "searchMovies movies searchTerm maxResults =
     (let searchLower = trim (toLowerCase searchTerm)
      in take maxResults
           (sort_key (\<lambda>r. - searchScore r)
              (filter (\<lambda>r. searchScore r > 0.1)
                 (map (searchEntry searchTerm searchLower) movies))))"

subsection \<open>Recommendation ranker\<close>

record recommendation = movie +
  similarityScore :: real

definition refTitleWordsOf :: "movie \<Rightarrow> jsstring list" where
  "refTitleWordsOf selectedMovie =
     filter (\<lambda>w. length w \<ge> 3 \<and> \<not> allDigits w
                 \<and> w \<notin> set (map js [''the'', ''and'', ''part'', ''vol'', ''volume'']))
            (splitWsColon (toLowerCase (title selectedMovie)))"

definition franchiseBonusOf :: "jsstring list \<Rightarrow> movie \<Rightarrow> real" where
  "franchiseBonusOf refTitleWords m =
     (if length refTitleWords > 0
      then
        (let movieTitleLower = toLowerCase (title m);
             matchingWords =
               fold (\<lambda>word n. if includesStr movieTitleLower word then n + 1 else n)
                    refTitleWords (0::nat)
         in if matchingWords > 0
            then (let matchRatio = real matchingWords / real (length refTitleWords)
                  in matchRatio * 0.25)
            else 0)
      else 0)"

definition scoreCandidate :: "movie \<Rightarrow> jsstring \<Rightarrow> jsstring \<Rightarrow> jsstring list \<Rightarrow> movie \<Rightarrow> recommendation" where
  \<comment> \<open>the function mapped over the candidates by \<^verbatim>\<open>getRecommendations\<close>\<close>
  "scoreCandidate selectedMovie referenceText algorithm refTitleWords m =
     (let baseScore = calculateMovieSimilarity m referenceText algorithm (Some selectedMovie);
          franchiseBonus = franchiseBonusOf refTitleWords m
      in \<lparr>movie_id = movie_id m, title = title m, year = year m, rating = rating m,
          genre = genre m, description = description m, director = director m,
          similarityScore = baseScore + franchiseBonus\<rparr>)"

definition getRecommendations :: "movie list \<Rightarrow> movie \<Rightarrow> jsstring \<Rightarrow> nat \<Rightarrow> recommendation list" where
  "getRecommendations movies selectedMovie algorithm topN =
     (let referenceText = description selectedMovie @ js '' '' @ join (js '' '') (genre selectedMovie);
          refTitleWords = refTitleWordsOf selectedMovie;
          sameGenreMovies =
            filter (\<lambda>m. if movie_id m = movie_id selectedMovie then False
                         else list_ex (\<lambda>g. g \<in> set (genre selectedMovie)) (genre m))
                   movies;
          candidateMovies =
            (if length sameGenreMovies \<ge> topN * 2 then sameGenreMovies
             else filter (\<lambda>m. movie_id m \<noteq> movie_id selectedMovie) movies)
      in take topN
           (sort_key (\<lambda>r. - similarityScore r)
              (map (scoreCandidate selectedMovie referenceText algorithm refTitleWords)
                   candidateMovies)))"

subsection \<open>Auxiliary notions for the proofs\<close>

text \<open>One pass of the outer loop of the two-row edit distance, on the pair of rows.\<close>

definition swapStep :: "jsstring \<Rightarrow> jsstring \<Rightarrow> nat \<Rightarrow> nat list \<times> nat list \<Rightarrow> nat list \<times> nat list" where
  "swapStep s1 s2 i rows = (fillRow s1 s2 i (fst rows) (snd rows), fst rows)"

text \<open>The table of the full-matrix edit distance has \<open>n1 + 1\<close> rows of \<open>n2 + 1\<close> entries.\<close>

definition matOk :: "nat \<Rightarrow> nat \<Rightarrow> nat list list \<Rightarrow> bool" where
  "matOk n1 n2 dp = (length dp = Suc n1 \<and> (\<forall>r\<le>n1. length (dp ! r) = Suc n2))"

text \<open>The set of tokens of a text, and the sums that \<open>cosineSimilarity\<close> accumulates.\<close>

definition tokens :: "jsstring \<Rightarrow> jsstring set" where
  "tokens s = set (preprocessText s)"

definition dotOf :: "jsstring list \<Rightarrow> jsstring list \<Rightarrow> nat" where
  "dotOf ws1 ws2 = (\<Sum>w\<in>set ws1 \<union> set ws2. count_list ws1 w * count_list ws2 w)"

definition normOf :: "jsstring list \<Rightarrow> jsstring list \<Rightarrow> nat" where
  "normOf ws1 ws2 = (\<Sum>w\<in>set ws1 \<union> set ws2. count_list ws1 w * count_list ws1 w)"

text \<open>The body of the loop of \<open>findClosestMatch\<close>, for any scoring of the movies.\<close>

definition keepBest :: "(movie \<Rightarrow> real) \<Rightarrow> movie \<Rightarrow> movie option \<times> real \<Rightarrow> movie option \<times> real" where
  "keepBest f m st = (if f m > snd st then (Some m, f m) else st)"

subsection \<open>Example movies\<close>

definition starWars :: movie where
  "starWars = \<lparr>movie_id = NumId 1, title = js ''Star Wars'', year = 1977, rating = 8,
       genre = map js [''Sci-Fi''], description = js ''rebels fight empire'',
       director = Some (js ''George Lucas'')\<rparr>"

definition alien :: movie where
  "alien = \<lparr>movie_id = NumId 2, title = js ''Alien'', year = 1979, rating = 8,
       genre = map js [''Sci-Fi'', ''Horror''], description = js ''crew meets creature'',
       director = Some (js ''Ridley Scott'')\<rparr>"

definition starWarsSequel :: movie where
  "starWarsSequel = \<lparr>movie_id = StrId (js ''tt0080684''), title = js ''Star Wars: Episode V'', year = 1980, rating = 9,
       genre = map js [''Sci-Fi''], description = js ''rebels flee empire'',
       director = None\<rparr>"

definition up :: movie where
  "up = \<lparr>movie_id = NumId 3, title = js ''Up'', year = 2009, rating = 8,
       genre = map js [''Animation''], description = js ''old man flies house'',
       director = Some (js ''Pete Docter'')\<rparr>"

definition uptownGirls :: movie where
  "uptownGirls = \<lparr>movie_id = NumId 4, title = js ''Uptown Girls'', year = 2003, rating = 6,
       genre = map js [''Comedy''], description = js ''nanny grows'',
       director = None\<rparr>"

definition paddedUp :: movie where
  "paddedUp = \<lparr>movie_id = NumId 5, title = js '' Up'', year = 2009, rating = 8,
       genre = map js [''Animation''], description = js ''old man flies house'',
       director = None\<rparr>"

section \<open>Properties\<close>

subsection \<open>String literals\<close>

lemma length_js [simp]: "length (js s) = length s"
  by (simp add: js_def)

lemma js_append [simp]: "js a @ js b = js (a @ b)"
  by (simp add: js_def)

lemma js_Nil_iff [simp]: "(js s = []) = (s = [])"
  by (simp add: js_def)

lemma js_inj [simp]: "(js a = js b) = (a = b)"
  by (simp add: js_def inj_map_eq_map inj_def)

subsection \<open>Both edit-distance loops compute the table entry\<close>

lemma fold_upt_Suc: "a \<le> m \<Longrightarrow> fold f [a..<Suc m] x = f m (fold f [a..<m] x)"
  by simp

lemma initRow_aux:
  "n \<le> length row \<Longrightarrow>
   length (fold (\<lambda>j row. row[j := j]) [0..<n] row) = length row \<and>
   (\<forall>k<n. fold (\<lambda>j row. row[j := j]) [0..<n] row ! k = k) \<and>
   (\<forall>k\<ge>n. fold (\<lambda>j row. row[j := j]) [0..<n] row ! k = row ! k)"
proof (induction n)
  case 0
  then show ?case by simp
next
  case (Suc n)
  then show ?case by (auto simp: nth_list_update less_Suc_eq)
qed

lemma initRow:
  "length (fold (\<lambda>j row. row[j := j]) [0..<Suc n] (replicate (Suc n) 0)) = Suc n"
  "k \<le> n \<Longrightarrow> fold (\<lambda>j row. row[j := j]) [0..<Suc n] (replicate (Suc n) 0) ! k = k"
  using initRow_aux[of "Suc n" "replicate (Suc n) 0"] by auto

lemma fillRow_aux:
  assumes lp: "length prev = Suc n2" and lc: "length cur = Suc n2"
    and pv: "\<And>k. k \<le> n2 \<Longrightarrow> prev ! k = cell s1 s2 i k"
  shows "m \<le> n2 \<Longrightarrow>
     length (fold (rowStep s1 s2 (Suc i) prev) [1..<Suc m] (cur[0 := Suc i])) = Suc n2 \<and>
     (\<forall>k\<le>m. fold (rowStep s1 s2 (Suc i) prev) [1..<Suc m] (cur[0 := Suc i]) ! k = cell s1 s2 (Suc i) k)"
proof (induction m)
  case 0
  then show ?case using lc by simp
next
  case (Suc m)
  define F where "F = fold (rowStep s1 s2 (Suc i) prev) [1..<Suc m] (cur[0 := Suc i])"
  have lenF: "length F = Suc n2" and valF: "\<And>k. k \<le> m \<Longrightarrow> F ! k = cell s1 s2 (Suc i) k"
    using Suc by (auto simp: F_def)
  have step: "fold (rowStep s1 s2 (Suc i) prev) [1..<Suc (Suc m)] (cur[0 := Suc i])
        = rowStep s1 s2 (Suc i) prev (Suc m) F"
    unfolding F_def by (rule fold_upt_Suc) simp
  have pm: "prev ! m = cell s1 s2 i m" "prev ! Suc m = cell s1 s2 i (Suc m)"
    using pv Suc.prems by auto
  have new: "rowStep s1 s2 (Suc i) prev (Suc m) F ! Suc m = cell s1 s2 (Suc i) (Suc m)"
    using lenF Suc.prems pm valF[of m] by (simp add: rowStep_def)
  have old: "\<And>k. k \<le> m \<Longrightarrow> rowStep s1 s2 (Suc i) prev (Suc m) F ! k = cell s1 s2 (Suc i) k"
    using valF by (simp add: rowStep_def)
  have len: "length (rowStep s1 s2 (Suc i) prev (Suc m) F) = Suc n2"
    using lenF by (simp add: rowStep_def)
  show ?case
    unfolding step using new old len by (auto simp: le_Suc_eq)
qed

lemma fillRow_cell:
  assumes "length prev = Suc (length s2)" "length cur = Suc (length s2)"
    and "\<And>k. k \<le> length s2 \<Longrightarrow> prev ! k = cell s1 s2 i k"
  shows "length (fillRow s1 s2 (Suc i) prev cur) = Suc (length s2)"
    and "\<And>k. k \<le> length s2 \<Longrightarrow> fillRow s1 s2 (Suc i) prev cur ! k = cell s1 s2 (Suc i) k"
  using fillRow_aux[OF assms, of "length s2"]
  unfolding fillRow_def by auto

lemma swapStep_eq: "(\<lambda>i (prevRow, currRow). (fillRow s1 s2 i prevRow currRow, prevRow)) = swapStep s1 s2"
  by (auto simp: swapStep_def fun_eq_iff)

lemma outer_aux:
  assumes "length p0 = Suc (length s2)" "length c0 = Suc (length s2)"
    and "\<And>k. k \<le> length s2 \<Longrightarrow> p0 ! k = k"
  shows "length (fst (fold (swapStep s1 s2) [1..<Suc n] (p0, c0))) = Suc (length s2) \<and>
         length (snd (fold (swapStep s1 s2) [1..<Suc n] (p0, c0))) = Suc (length s2) \<and>
         (\<forall>k\<le>length s2. fst (fold (swapStep s1 s2) [1..<Suc n] (p0, c0)) ! k = cell s1 s2 n k)"
proof (induction n)
  case 0
  then show ?case using assms by simp
next
  case (Suc n)
  define G where "G = fold (swapStep s1 s2) [1..<Suc n] (p0, c0)"
  have G: "length (fst G) = Suc (length s2)" "length (snd G) = Suc (length s2)"
      "\<And>k. k \<le> length s2 \<Longrightarrow> fst G ! k = cell s1 s2 n k"
    using Suc by (auto simp: G_def)
  have step: "fold (swapStep s1 s2) [1..<Suc (Suc n)] (p0, c0) = swapStep s1 s2 (Suc n) G"
    unfolding G_def by (rule fold_upt_Suc) simp
  show ?case
    unfolding step by (simp add: swapStep_def fillRow_cell[OF G] G(1))
qed

lemma levRows_cell:
  assumes "k \<le> length s2"
  shows "fst (levRows s1 s2) ! k = cell s1 s2 (length s1) k"
proof -
  define p0 where "p0 = fold (\<lambda>j row. row[j := j]) [0..<Suc (length s2)] (replicate (Suc (length s2)) 0)"
  define c0 :: "nat list" where "c0 = replicate (Suc (length s2)) 0"
  have eq: "levRows s1 s2 = fold (swapStep s1 s2) [1..<Suc (length s1)] (p0, c0)"
    by (simp add: levRows_def Let_def swapStep_eq p0_def c0_def del: upt_Suc)
  have lp: "length p0 = Suc (length s2)"
    unfolding p0_def by (rule initRow(1))
  have lc: "length c0 = Suc (length s2)"
    unfolding c0_def by simp
  have pv: "\<And>k. k \<le> length s2 \<Longrightarrow> p0 ! k = k"
    unfolding p0_def by (rule initRow(2))
  from outer_aux[OF lp lc pv, of s1 "length s1"] assms show ?thesis
    unfolding eq by blast
qed

lemma matOk_update:
  "matOk n1 n2 dp \<Longrightarrow> i \<le> n1 \<Longrightarrow> matOk n1 n2 (dp[i := (dp ! i)[j := v]])"
  by (auto simp: matOk_def nth_list_update)

lemma matOk_nth_update:
  assumes "matOk n1 n2 dp" "i \<le> n1" "j \<le> n2" "r \<le> n1" "k \<le> n2"
  shows "dp[i := (dp ! i)[j := v]] ! r ! k = (if r = i \<and> k = j then v else dp ! r ! k)"
proof -
  have "length dp = Suc n1" "length (dp ! i) = Suc n2"
    using assms by (auto simp: matOk_def)
  then show ?thesis using assms(2-5) by (simp add: nth_list_update)
qed

lemma initCol:
  assumes ok: "matOk n1 n2 dp"
  shows "n \<le> Suc n1 \<Longrightarrow>
     matOk n1 n2 (fold (\<lambda>i dp. dp[i := (dp ! i)[0 := i]]) [0..<n] dp) \<and>
     (\<forall>r<n. fold (\<lambda>i dp. dp[i := (dp ! i)[0 := i]]) [0..<n] dp ! r ! 0 = r)"
proof (induction n)
  case 0
  then show ?case using ok by simp
next
  case (Suc n)
  define F where "F = fold (\<lambda>i dp. dp[i := (dp ! i)[0 := i]]) [0..<n] dp"
  have F: "matOk n1 n2 F" "\<And>r. r < n \<Longrightarrow> F ! r ! 0 = r"
    using Suc by (auto simp: F_def)
  have step: "fold (\<lambda>i dp. dp[i := (dp ! i)[0 := i]]) [0..<Suc n] dp = F[n := (F ! n)[0 := n]]"
    by (simp add: F_def)
  have n: "n \<le> n1" using Suc.prems by simp
  have "matOk n1 n2 (F[n := (F ! n)[0 := n]])"
    using F(1) n by (rule matOk_update)
  moreover have "\<forall>r<Suc n. F[n := (F ! n)[0 := n]] ! r ! 0 = r"
    using F(2) n by (auto simp: matOk_nth_update[OF F(1)] less_Suc_eq)
  ultimately show ?case unfolding step by simp
qed

lemma initRow0:
  assumes ok: "matOk n1 n2 dp" and col: "\<And>r. r \<le> n1 \<Longrightarrow> dp ! r ! 0 = r"
  shows "n \<le> Suc n2 \<Longrightarrow>
     matOk n1 n2 (fold (\<lambda>j dp. dp[0 := (dp ! 0)[j := j]]) [0..<n] dp) \<and>
     (\<forall>r\<le>n1. fold (\<lambda>j dp. dp[0 := (dp ! 0)[j := j]]) [0..<n] dp ! r ! 0 = r) \<and>
     (\<forall>k<n. fold (\<lambda>j dp. dp[0 := (dp ! 0)[j := j]]) [0..<n] dp ! 0 ! k = k)"
proof (induction n)
  case 0
  then show ?case using ok col by simp
next
  case (Suc n)
  define F where "F = fold (\<lambda>j dp. dp[0 := (dp ! 0)[j := j]]) [0..<n] dp"
  have F: "matOk n1 n2 F" "\<And>r. r \<le> n1 \<Longrightarrow> F ! r ! 0 = r" "\<And>k. k < n \<Longrightarrow> F ! 0 ! k = k"
    using Suc by (auto simp: F_def)
  have step: "fold (\<lambda>j dp. dp[0 := (dp ! 0)[j := j]]) [0..<Suc n] dp = F[0 := (F ! 0)[n := n]]"
    by (simp add: F_def)
  have n: "n \<le> n2" using Suc.prems by simp
  have a: "matOk n1 n2 (F[0 := (F ! 0)[n := n]])"
    using F(1) by (rule matOk_update) simp
  have b: "\<forall>r\<le>n1. F[0 := (F ! 0)[n := n]] ! r ! 0 = r"
    using F(2) n by (auto simp: matOk_nth_update[OF F(1)])
  have c: "\<forall>k<Suc n. F[0 := (F ! 0)[n := n]] ! 0 ! k = k"
    using F(3) n by (auto simp: matOk_nth_update[OF F(1)] less_Suc_eq)
  show ?case unfolding step using a b c by simp
qed

lemma matrixRow_aux:
  assumes ok: "matOk n1 n2 dp" and i: "Suc i \<le> n1"
    and above: "\<And>r k. r \<le> i \<Longrightarrow> k \<le> n2 \<Longrightarrow> dp ! r ! k = cell s1 s2 r k"
    and col: "\<And>r. r \<le> n1 \<Longrightarrow> dp ! r ! 0 = r"
  shows "m \<le> n2 \<Longrightarrow>
     matOk n1 n2 (fold (matrixStep s1 s2 (Suc i)) [1..<Suc m] dp) \<and>
     (\<forall>r\<le>i. \<forall>k\<le>n2. fold (matrixStep s1 s2 (Suc i)) [1..<Suc m] dp ! r ! k = cell s1 s2 r k) \<and>
     (\<forall>r\<le>n1. fold (matrixStep s1 s2 (Suc i)) [1..<Suc m] dp ! r ! 0 = r) \<and>
     (\<forall>k\<le>m. fold (matrixStep s1 s2 (Suc i)) [1..<Suc m] dp ! Suc i ! k = cell s1 s2 (Suc i) k)"
proof (induction m)
  case 0
  then show ?case using ok above col i by simp
next
  case (Suc m)
  define F where "F = fold (matrixStep s1 s2 (Suc i)) [1..<Suc m] dp"
  have F: "matOk n1 n2 F" "\<And>r k. r \<le> i \<Longrightarrow> k \<le> n2 \<Longrightarrow> F ! r ! k = cell s1 s2 r k"
     "\<And>r. r \<le> n1 \<Longrightarrow> F ! r ! 0 = r"
     "\<And>k. k \<le> m \<Longrightarrow> F ! Suc i ! k = cell s1 s2 (Suc i) k"
    using Suc by (auto simp: F_def)
  have step: "fold (matrixStep s1 s2 (Suc i)) [1..<Suc (Suc m)] dp = matrixStep s1 s2 (Suc i) (Suc m) F"
    unfolding F_def by (rule fold_upt_Suc) simp
  define v where "v = (if s1 ! i = s2 ! m then F ! i ! m
        else min3 (F ! i ! Suc m + 1) (F ! Suc i ! m + 1) (F ! i ! m + 1))"
  have ms: "matrixStep s1 s2 (Suc i) (Suc m) F = F[Suc i := (F ! Suc i)[Suc m := v]]"
    by (simp add: matrixStep_def v_def)
  have m: "Suc m \<le> n2" "m \<le> n2" using Suc.prems by simp_all
  have v: "v = cell s1 s2 (Suc i) (Suc m)"
    unfolding v_def using F(2)[of i m] F(2)[of i "Suc m"] F(4)[of m] m by simp
  have lenF: "length F = Suc n1" "length (F ! Suc i) = Suc n2"
    using F(1) i by (auto simp: matOk_def)
  have a: "matOk n1 n2 (F[Suc i := (F ! Suc i)[Suc m := v]])"
    using F(1) i by (rule matOk_update)
  have b: "\<forall>r\<le>i. \<forall>k\<le>n2. F[Suc i := (F ! Suc i)[Suc m := v]] ! r ! k = cell s1 s2 r k"
    using F(2) i m by (simp add: matOk_nth_update[OF F(1)])
  have c: "\<forall>r\<le>n1. F[Suc i := (F ! Suc i)[Suc m := v]] ! r ! 0 = r"
    using F(3) i m by (simp add: matOk_nth_update[OF F(1)])
  have d: "\<forall>k\<le>Suc m. F[Suc i := (F ! Suc i)[Suc m := v]] ! Suc i ! k = cell s1 s2 (Suc i) k"
    using F(4) i m v by (auto simp: matOk_nth_update[OF F(1)] le_Suc_eq)
  show ?case unfolding step ms using a b c d by simp
qed

lemma matrixRow:
  assumes ok: "matOk n1 (length s2) dp" and i: "Suc i \<le> n1"
    and above: "\<And>r k. r \<le> i \<Longrightarrow> k \<le> length s2 \<Longrightarrow> dp ! r ! k = cell s1 s2 r k"
    and col: "\<And>r. r \<le> n1 \<Longrightarrow> dp ! r ! 0 = r"
  shows "matOk n1 (length s2) (fillMatrixRow s1 s2 (Suc i) dp)"
    and "\<And>r k. r \<le> Suc i \<Longrightarrow> k \<le> length s2 \<Longrightarrow> fillMatrixRow s1 s2 (Suc i) dp ! r ! k = cell s1 s2 r k"
    and "\<And>r. r \<le> n1 \<Longrightarrow> fillMatrixRow s1 s2 (Suc i) dp ! r ! 0 = r"
  using matrixRow_aux[OF assms, of "length s2"]
  unfolding fillMatrixRow_def by (auto simp: le_Suc_eq)

lemma matrixRows:
  assumes ok: "matOk n1 (length s2) dp"
    and row0: "\<And>k. k \<le> length s2 \<Longrightarrow> dp ! 0 ! k = k"
    and col: "\<And>r. r \<le> n1 \<Longrightarrow> dp ! r ! 0 = r"
  shows "n \<le> n1 \<Longrightarrow>
     matOk n1 (length s2) (fold (fillMatrixRow s1 s2) [1..<Suc n] dp) \<and>
     (\<forall>r\<le>n. \<forall>k\<le>length s2. fold (fillMatrixRow s1 s2) [1..<Suc n] dp ! r ! k = cell s1 s2 r k) \<and>
     (\<forall>r\<le>n1. fold (fillMatrixRow s1 s2) [1..<Suc n] dp ! r ! 0 = r)"
proof (induction n)
  case 0
  then show ?case using assms by simp
next
  case (Suc n)
  define G where "G = fold (fillMatrixRow s1 s2) [1..<Suc n] dp"
  have G: "matOk n1 (length s2) G" "Suc n \<le> n1"
     "\<And>r k. r \<le> n \<Longrightarrow> k \<le> length s2 \<Longrightarrow> G ! r ! k = cell s1 s2 r k"
     "\<And>r. r \<le> n1 \<Longrightarrow> G ! r ! 0 = r"
    using Suc by (auto simp: G_def)
  have step: "fold (fillMatrixRow s1 s2) [1..<Suc (Suc n)] dp = fillMatrixRow s1 s2 (Suc n) G"
    unfolding G_def by (rule fold_upt_Suc) simp
  show ?case unfolding step using matrixRow[OF G] by blast
qed

lemma levMatrix_cell: "levMatrix s1 s2 ! length s1 ! length s2 = cell s1 s2 (length s1) (length s2)"
proof -
  define d0 :: "nat list list" where "d0 = replicate (Suc (length s1)) (replicate (Suc (length s2)) 0)"
  define d1 where "d1 = fold (\<lambda>i dp. dp[i := (dp ! i)[0 := i]]) [0..<Suc (length s1)] d0"
  define d2 where "d2 = fold (\<lambda>j dp. dp[0 := (dp ! 0)[j := j]]) [0..<Suc (length s2)] d1"
  have eq: "levMatrix s1 s2 = fold (fillMatrixRow s1 s2) [1..<Suc (length s1)] d2"
    by (simp add: levMatrix_def Let_def d0_def d1_def d2_def del: upt_Suc)
  have ok0: "matOk (length s1) (length s2) d0"
    by (simp add: matOk_def d0_def del: replicate_Suc)
  have d1: "matOk (length s1) (length s2) d1" "\<And>r. r \<le> length s1 \<Longrightarrow> d1 ! r ! 0 = r"
    using initCol[OF ok0, of "Suc (length s1)"] unfolding d1_def by auto
  have d2: "matOk (length s1) (length s2) d2" "\<And>k. k \<le> length s2 \<Longrightarrow> d2 ! 0 ! k = k"
      "\<And>r. r \<le> length s1 \<Longrightarrow> d2 ! r ! 0 = r"
    using initRow0[OF d1, of "Suc (length s2)"] unfolding d2_def by auto
  show ?thesis
    unfolding eq using matrixRows[OF d2, of "length s1" s1] by blast
qed

subsection \<open>The table entry: symmetry, bound, zero\<close>

lemma min3_comm12: "min3 a b c = min3 b a c"
  by (simp add: min3_def min.left_commute)

lemma cell_0_right: "cell s1 s2 i 0 = i"
  by (cases i) simp_all

lemma cell_sym: "cell s1 s2 i j = cell s2 s1 j i"
proof (induction s1 s2 i j rule: cell.induct)
  case (1 s1 s2 j)
  then show ?case by (simp add: cell_0_right)
next
  case (2 s1 s2 i)
  then show ?case by simp
next
  case (3 s1 s2 i j)
  then show ?case by (auto simp: min3_comm12)
qed

lemma cell_le_max: "cell s1 s2 i j \<le> max i j"
proof (induction s1 s2 i j rule: cell.induct)
  case (3 s1 s2 i j)
  then show ?case by (auto simp: min3_def)
qed simp_all

lemma cell_same: "cell s s i i = 0"
  by (induction i) simp_all

lemma cell_zero:
  "cell s1 s2 i j = 0 \<Longrightarrow> i \<le> length s1 \<Longrightarrow> j \<le> length s2 \<Longrightarrow> i = j \<and> take i s1 = take j s2"
proof (induction s1 s2 i j rule: cell.induct)
  case (3 s1 s2 i j)
  then show ?case
    by (auto simp: min3_def take_Suc_conv_app_nth split: if_splits)
qed simp_all

lemma half_less_iff: "(real (m::nat) * 0.5 < real (d::nat)) = (m < 2 * d)"
proof -
  have "(real m * 0.5 < real d) = (real m < real (2 * d))"
    by auto
  also have "\<dots> = (m < 2 * d)"
    by (rule of_nat_less_iff)
  finally show ?thesis .
qed

lemma levenshteinDistance_cell:
  "levenshteinDistance a b =
     (if max (length (toLowerCase a)) (length (toLowerCase b))
           < 2 * nat \<bar>int (length (toLowerCase a)) - int (length (toLowerCase b))\<bar>
      then max (length (toLowerCase a)) (length (toLowerCase b))
      else cell (toLowerCase a) (toLowerCase b) (length (toLowerCase a)) (length (toLowerCase b)))"
proof -
  define d where "d = nat \<bar>int (length (toLowerCase a)) - int (length (toLowerCase b))\<bar>"
  define m where "m = max (length (toLowerCase a)) (length (toLowerCase b))"
  have "levenshteinDistance a b =
      (if real m * 0.5 < real d then m
       else fst (levRows (toLowerCase a) (toLowerCase b)) ! length (toLowerCase b))"
    by (simp only: levenshteinDistance_def Let_def d_def m_def)
  also have "\<dots> = (if m < 2 * d then m
       else cell (toLowerCase a) (toLowerCase b) (length (toLowerCase a)) (length (toLowerCase b)))"
    using levRows_cell[of "length (toLowerCase b)" "toLowerCase b" "toLowerCase a"]
    by (simp only: half_less_iff le_refl)
  finally show ?thesis
    by (simp only: d_def m_def)
qed

lemma levenshteinDistance_full_cell:
  "levenshteinDistance_full a b =
     cell (toLowerCase a) (toLowerCase b) (length (toLowerCase a)) (length (toLowerCase b))"
  using levMatrix_cell[of "toLowerCase a" "toLowerCase b"]
  by (simp add: levenshteinDistance_full_def Let_def)

lemma levenshteinDistance_le:
  "levenshteinDistance a b \<le> max (length (toLowerCase a)) (length (toLowerCase b))"
  by (simp add: levenshteinDistance_cell cell_le_max)

lemma levenshteinDistance_sym: "levenshteinDistance a b = levenshteinDistance b a"
  by (simp add: levenshteinDistance_cell cell_sym[of "toLowerCase a"] max.commute abs_minus_commute)

lemma levenshteinDistance_same: "levenshteinDistance a a = 0"
  by (simp add: levenshteinDistance_cell cell_same)

lemma levenshteinSimilarity_unfold:
  "levenshteinSimilarity a b =
     (if max (length a) (length b) = 0 then 1
      else 1 - real (levenshteinDistance a b) / real (max (length a) (length b)))"
  by (simp only: levenshteinSimilarity_def Let_def)

lemma levenshteinSimilarity_le_one: "levenshteinSimilarity a b \<le> 1"
  by (simp add: levenshteinSimilarity_unfold del: of_nat_max)

lemma ratio_range:
  assumes "d \<le> m" "m \<noteq> (0::nat)"
  shows "0 \<le> 1 - real d / real m" "1 - real d / real m \<le> 1"
proof -
  have "real d / real m \<le> 1"
    using assms by (simp add: divide_le_eq_1)
  then show "0 \<le> 1 - real d / real m" by simp
  show "1 - real d / real m \<le> 1" by simp
qed

text \<open>
  The similarity is not below 0 when lowercasing keeps the lengths of both strings, as it
  does on strings of the code units up to \<open>U+00FF\<close>.
\<close>

lemma levenshteinSimilarity_range:
  assumes "length (toLowerCase a) = length a" "length (toLowerCase b) = length b"
  shows "0 \<le> levenshteinSimilarity a b \<and> levenshteinSimilarity a b \<le> 1"
proof (cases "max (length a) (length b) = 0")
  case True
  then show ?thesis by (simp only: levenshteinSimilarity_unfold if_True) simp
next
  case False
  have "levenshteinDistance a b \<le> max (length a) (length b)"
    using levenshteinDistance_le[of a b] by (simp only: assms)
  from ratio_range[OF this False] False
  show ?thesis by (simp only: levenshteinSimilarity_unfold if_False)
qed

lemma length_toLowerCase_js: "length (toLowerCase (js s)) = length (js s)"
  by (induction s) (simp_all add: toLowerCase_def js_def)

lemma levenshteinSimilarity_sym: "levenshteinSimilarity a b = levenshteinSimilarity b a"
  by (simp add: levenshteinSimilarity_def levenshteinDistance_sym[of a b] max.commute)

lemma levenshteinSimilarity_same: "levenshteinSimilarity a a = 1"
  by (simp add: levenshteinSimilarity_def levenshteinDistance_same)

lemma ratio_one:
  assumes "1 - real d / real m = 1" "m \<noteq> (0::nat)"
  shows "d = 0"
  using assms by simp

lemma toLowerCase_Nil [simp]: "toLowerCase [] = []"
  by (simp add: toLowerCase_def)

lemma levenshteinSimilarity_one:
  assumes h: "levenshteinSimilarity a b = 1"
  shows "toLowerCase a = toLowerCase b"
proof (cases "max (length a) (length b) = 0")
  case True
  then show ?thesis by simp
next
  case False
  let ?la = "length (toLowerCase a)" and ?lb = "length (toLowerCase b)"
  from h False have "1 - real (levenshteinDistance a b) / real (max (length a) (length b)) = 1"
    by (simp only: levenshteinSimilarity_unfold if_False)
  from ratio_one[OF this False] have d0: "levenshteinDistance a b = 0" .
  have ns: "\<not> max ?la ?lb < 2 * nat \<bar>int ?la - int ?lb\<bar>"
  proof
    assume c: "max ?la ?lb < 2 * nat \<bar>int ?la - int ?lb\<bar>"
    then have "levenshteinDistance a b = max ?la ?lb"
      by (simp only: levenshteinDistance_cell if_True)
    with d0 have "?la = 0" "?lb = 0" by simp_all
    with c show False by simp
  qed
  then have "levenshteinDistance a b = cell (toLowerCase a) (toLowerCase b) ?la ?lb"
    by (simp only: levenshteinDistance_cell if_False)
  with d0 have "cell (toLowerCase a) (toLowerCase b) ?la ?lb = 0"
    by simp
  from cell_zero[OF this] show ?thesis by simp
qed

subsection \<open>Jaccard similarity as a quotient of cardinalities\<close>

lemma set_newSet [simp]: "set (newSet xs) = set xs"
  by (simp add: newSet_def)

lemma distinct_newSet [simp]: "distinct (newSet xs)"
  by (simp add: newSet_def)

lemma length_newSet: "length (newSet xs) = card (set xs)"
  using distinct_card[of "newSet xs"] by simp

lemma fold_count:
  "fold (\<lambda>x (c::nat). if P x then c + 1 else c) xs n = n + length (filter P xs)"
  by (induction xs arbitrary: n) simp_all

lemma count_inter:
  "distinct xs \<Longrightarrow> length (filter (\<lambda>x. x \<in> set ys) xs) = card (set xs \<inter> set ys)"
proof -
  assume d: "distinct xs"
  have "set (filter (\<lambda>x. x \<in> set ys) xs) = set xs \<inter> set ys" by auto
  moreover have "distinct (filter (\<lambda>x. x \<in> set ys) xs)" using d by simp
  ultimately show ?thesis using distinct_card by metis
qed

lemma jaccardSimilarity_card:
  "jaccardSimilarity a b =
     (if tokens a = {} \<or> tokens b = {} then 0
      else real (card (tokens a \<inter> tokens b)) / real (card (tokens a \<union> tokens b)))"
proof -
  let ?A = "tokens a" and ?B = "tokens b"
  have fin: "finite ?A" "finite ?B" by (simp_all add: tokens_def)
  have cnt: "fold (\<lambda>item count. if item \<in> set (newSet (preprocessText b)) then count + 1 else count)
               (newSet (preprocessText a)) (0::nat) = card (?A \<inter> ?B)"
    using count_inter[of "newSet (preprocessText a)" "newSet (preprocessText b)"]
    by (simp add: fold_count tokens_def)
  have un: "card ?A + card ?B - card (?A \<inter> ?B) = card (?A \<union> ?B)"
    using card_Un_Int[OF fin] by simp
  have cz: "(card ?A = 0) = (?A = {})" "(card ?B = 0) = (?B = {})"
      "(card (?A \<union> ?B) = 0) = (?A = {} \<and> ?B = {})"
    using fin by simp_all
  have "jaccardSimilarity a b =
      (if card ?A = 0 \<or> card ?B = 0 then 0
       else if card ?A + card ?B - card (?A \<inter> ?B) = 0 then 0
       else real (card (?A \<inter> ?B)) / real (card ?A + card ?B - card (?A \<inter> ?B)))"
    unfolding jaccardSimilarity_def Let_def cnt length_newSet tokens_def ..
  then show ?thesis
    unfolding un cz by auto
qed

lemma quotient_range:
  assumes "(i::nat) \<le> u"
  shows "0 \<le> real i / real u \<and> real i / real u \<le> 1"
proof (cases "u = 0")
  case True
  then show ?thesis by simp
next
  case False
  with assms show ?thesis by (simp add: divide_le_eq_1)
qed

lemma jaccardSimilarity_range: "0 \<le> jaccardSimilarity a b \<and> jaccardSimilarity a b \<le> 1"
proof -
  have "card (tokens a \<inter> tokens b) \<le> card (tokens a \<union> tokens b)"
    by (rule card_mono) (auto simp: tokens_def)
  from quotient_range[OF this] show ?thesis
    unfolding jaccardSimilarity_card by simp
qed

lemma jaccardSimilarity_sym: "jaccardSimilarity a b = jaccardSimilarity b a"
  unfolding jaccardSimilarity_card by (simp add: Int_commute Un_commute disj_commute)

lemma jaccardSimilarity_same: "preprocessText a \<noteq> [] \<Longrightarrow> jaccardSimilarity a a = 1"
proof -
  assume "preprocessText a \<noteq> []"
  then have ne: "tokens a \<noteq> {}" by (simp add: tokens_def)
  then have "card (tokens a) \<noteq> 0" by (simp add: tokens_def)
  with ne show ?thesis unfolding jaccardSimilarity_card by simp
qed

subsection \<open>The Cauchy-Schwarz inequality for finite sums\<close>

lemma cs_step:
  fixes a b A B C :: real
  assumes A: "0 \<le> A" and B: "0 \<le> B" and C: "C\<^sup>2 \<le> A * B"
  shows "(a * b + C)\<^sup>2 \<le> (a\<^sup>2 + A) * (b\<^sup>2 + B)"
proof -
  have "sqrt (C\<^sup>2) \<le> sqrt (A * B)"
    using C by (rule real_sqrt_le_mono)
  then have absC: "\<bar>C\<bar> \<le> sqrt A * sqrt B"
    by (simp add: real_sqrt_mult)
  have "a * b * C \<le> \<bar>a * b\<bar> * \<bar>C\<bar>"
    by (metis abs_ge_self abs_mult)
  also have "\<dots> \<le> \<bar>a * b\<bar> * (sqrt A * sqrt B)"
    using absC by (rule mult_left_mono) simp
  also have "\<dots> = (\<bar>a\<bar> * sqrt B) * (\<bar>b\<bar> * sqrt A)"
    by (simp add: abs_mult)
  finally have "2 * (a * b * C) \<le> 2 * (\<bar>a\<bar> * sqrt B) * (\<bar>b\<bar> * sqrt A)"
    by simp
  also have "\<dots> \<le> (\<bar>a\<bar> * sqrt B)\<^sup>2 + (\<bar>b\<bar> * sqrt A)\<^sup>2"
    by (rule sum_squares_bound)
  also have "\<dots> = a\<^sup>2 * B + b\<^sup>2 * A"
    using A B by (simp add: power_mult_distrib)
  finally have "2 * (a * b * C) \<le> a\<^sup>2 * B + b\<^sup>2 * A" .
  moreover have "(a * b + C)\<^sup>2 = a\<^sup>2 * b\<^sup>2 + 2 * (a * b * C) + C\<^sup>2"
    by (simp add: power2_sum power_mult_distrib)
  moreover have "(a\<^sup>2 + A) * (b\<^sup>2 + B) = a\<^sup>2 * b\<^sup>2 + (a\<^sup>2 * B + b\<^sup>2 * A) + A * B"
    by (simp add: algebra_simps)
  ultimately show ?thesis using C by linarith
qed

lemma cauchy_schwarz_sum:
  fixes f g :: "'a \<Rightarrow> real"
  assumes "finite S"
  shows "(\<Sum>x\<in>S. f x * g x)\<^sup>2 \<le> (\<Sum>x\<in>S. (f x)\<^sup>2) * (\<Sum>x\<in>S. (g x)\<^sup>2)"
  using assms
proof (induction S rule: finite_induct)
  case empty
  then show ?case by simp
next
  case (insert x F)
  have "0 \<le> (\<Sum>x\<in>F. (f x)\<^sup>2)" "0 \<le> (\<Sum>x\<in>F. (g x)\<^sup>2)"
    by (simp_all add: sum_nonneg)
  from cs_step[OF this insert.IH, of "f x" "g x"] insert.hyps
  show ?case by simp
qed

subsection \<open>Cosine similarity as a quotient of sums\<close>

lemma getOr0_update:
  "getOr0 (AList.update k v al) w = (if w = k then v else getOr0 al w)"
  by (simp add: getOr0_def update_conv')

lemma frequencies_aux:
  "getOr0 (fold (\<lambda>word freq. AList.update word (getOr0 freq word + 1) freq) ws freq) w
     = getOr0 freq w + count_list ws w"
  by (induction ws arbitrary: freq) (auto simp: getOr0_update)

lemma getOr0_frequencies: "getOr0 (frequencies ws) w = count_list ws w"
  unfolding frequencies_def frequencies_aux by (simp add: getOr0_def)

lemma keys_aux:
  "fst ` set (fold (\<lambda>word freq. AList.update word (getOr0 freq word + 1) freq) ws freq)
     = fst ` set freq \<union> set ws"
  by (induction ws arbitrary: freq) (auto simp: dom_update)

lemma keys_frequencies: "set (map fst (frequencies ws)) = set ws"
  using keys_aux[of ws "[]"] by (simp add: frequencies_def)

lemma fold_triple:
  "fold (\<lambda>word (d, m1, m2).
            (d + c1 word * c2 word, m1 + c1 word * c1 word, m2 + c2 word * c2 word))
        ws (d0, a0, b0)
   = (d0 + (\<Sum>w\<leftarrow>ws. c1 w * c2 w), a0 + (\<Sum>w\<leftarrow>ws. c1 w * c1 w), b0 + (\<Sum>w\<leftarrow>ws. c2 w * c2 w :: nat))"
  by (induction ws arbitrary: d0 a0 b0) simp_all

lemma cosineSimilarity_sum:
  "cosineSimilarity a b =
     (let ws1 = preprocessText a; ws2 = preprocessText b
      in if ws1 = [] \<or> ws2 = [] then 0
         else if sqrt (real (normOf ws1 ws2)) = 0 \<or> sqrt (real (normOf ws2 ws1)) = 0 then 0
         else real (dotOf ws1 ws2) / (sqrt (real (normOf ws1 ws2)) * sqrt (real (normOf ws2 ws1))))"
proof -
  define ws1 where "ws1 = preprocessText a"
  define ws2 where "ws2 = preprocessText b"
  define allWords where "allWords = newSet (map fst (frequencies ws1) @ map fst (frequencies ws2))"
  have d: "distinct allWords" and s: "set allWords = set ws1 \<union> set ws2"
    unfolding allWords_def using keys_frequencies by auto
  have sums: "(\<Sum>w\<leftarrow>allWords. f w) = (\<Sum>w\<in>set ws1 \<union> set ws2. f w)" for f :: "jsstring \<Rightarrow> nat"
    using sum_list_distinct_conv_sum_set[OF d, of f] s by simp
  have fld: "fold (\<lambda>word (d, m1, m2).
            (d + getOr0 (frequencies ws1) word * getOr0 (frequencies ws2) word,
             m1 + getOr0 (frequencies ws1) word * getOr0 (frequencies ws1) word,
             m2 + getOr0 (frequencies ws2) word * getOr0 (frequencies ws2) word))
        allWords (0, 0, 0) = (dotOf ws1 ws2, normOf ws1 ws2, normOf ws2 ws1)"
    unfolding fold_triple sums getOr0_frequencies dotOf_def normOf_def
    by (simp add: Un_commute)
  show ?thesis
    unfolding cosineSimilarity_def ws1_def[symmetric] ws2_def[symmetric] Let_def
    unfolding allWords_def[symmetric] fld
    by simp
qed

lemma dotOf_sym: "dotOf ws1 ws2 = dotOf ws2 ws1"
  by (simp add: dotOf_def Un_commute mult.commute)

lemma cosineSimilarity_sym: "cosineSimilarity a b = cosineSimilarity b a"
  unfolding cosineSimilarity_sum Let_def
  by (simp add: dotOf_sym[of "preprocessText a"] mult.commute disj_commute)

lemma dot_le_norms:
  "real (dotOf ws1 ws2) \<le> sqrt (real (normOf ws1 ws2)) * sqrt (real (normOf ws2 ws1))"
proof -
  let ?S = "set ws1 \<union> set ws2"
  have "(\<Sum>w\<in>?S. real (count_list ws1 w) * real (count_list ws2 w))\<^sup>2
      \<le> (\<Sum>w\<in>?S. (real (count_list ws1 w))\<^sup>2) * (\<Sum>w\<in>?S. (real (count_list ws2 w))\<^sup>2)"
    by (rule cauchy_schwarz_sum) simp
  then have "(real (dotOf ws1 ws2))\<^sup>2 \<le> real (normOf ws1 ws2) * real (normOf ws2 ws1)"
    by (simp add: dotOf_def normOf_def power2_eq_square Un_commute)
  then have "sqrt ((real (dotOf ws1 ws2))\<^sup>2) \<le> sqrt (real (normOf ws1 ws2) * real (normOf ws2 ws1))"
    by (rule real_sqrt_le_mono)
  then show ?thesis
    by (simp add: real_sqrt_mult)
qed

lemma div_le_one:
  fixes d n :: real
  assumes "d \<le> n" "0 \<le> n"
  shows "d / n \<le> 1"
proof (cases "n = 0")
  case True
  then show ?thesis by simp
next
  case False
  with assms have "0 < n" by simp
  with assms(1) show ?thesis by simp
qed

lemma cosineSimilarity_range: "0 \<le> cosineSimilarity a b \<and> cosineSimilarity a b \<le> 1"
proof -
  let ?d = "real (dotOf (preprocessText a) (preprocessText b))"
  let ?n = "sqrt (real (normOf (preprocessText a) (preprocessText b)))
             * sqrt (real (normOf (preprocessText b) (preprocessText a)))"
  have le: "?d \<le> ?n" by (rule dot_le_norms)
  have n0: "0 \<le> ?n" by simp
  have "0 \<le> ?d / ?n" by (rule divide_nonneg_nonneg) simp_all
  moreover have "?d / ?n \<le> 1"
    using le n0 by (rule div_le_one)
  ultimately show ?thesis
    unfolding cosineSimilarity_sum Let_def by simp
qed

subsection \<open>Ranking: sorting, truncation, candidates\<close>

lemma sorted_desc_sort_key:
  fixes f :: "'a \<Rightarrow> real"
  shows "sorted_wrt (\<lambda>a b. f a \<ge> f b) (sort_key (\<lambda>r. - f r) xs)"
proof -
  have "sorted (map (\<lambda>r. - f r) (sort_key (\<lambda>r. - f r) xs))"
    by (rule sorted_sort_key)
  then show ?thesis by (simp add: sorted_map)
qed

lemma sorted_desc_take:
  fixes f :: "'a \<Rightarrow> real"
  shows "sorted_wrt (\<lambda>a b. f a \<ge> f b) (take n (sort_key (\<lambda>r. - f r) xs))"
  by (rule sorted_wrt_take) (rule sorted_desc_sort_key)

lemma set_take_sort_key: "set (take n (sort_key f xs)) \<subseteq> set xs"
  using set_take_subset[of n "sort_key f xs"] by simp

lemma candidates_exclude:
  assumes "m \<in> set (if topN * 2 \<le> length (filter (\<lambda>m. if movie_id m = movie_id sel then False
                         else list_ex (\<lambda>g. g \<in> set (genre sel)) (genre m)) movies)
          then filter (\<lambda>m. if movie_id m = movie_id sel then False
                         else list_ex (\<lambda>g. g \<in> set (genre sel)) (genre m)) movies
          else filter (\<lambda>m. movie_id m \<noteq> movie_id sel) movies)"
  shows "m \<in> set movies \<and> movie_id m \<noteq> movie_id sel"
  using assms by (auto split: if_splits)

lemma getRecommendations_entries:
  assumes "r \<in> set (getRecommendations movies sel algorithm topN)"
  shows "\<exists>m\<in>set movies. movie_id m \<noteq> movie_id sel \<and>
           r = scoreCandidate sel (description sel @ js '' '' @ join (js '' '') (genre sel)) algorithm
                 (refTitleWordsOf sel) m"
proof -
  from assms obtain m where
    m: "m \<in> set (if topN * 2 \<le> length (filter (\<lambda>m. if movie_id m = movie_id sel then False
                         else list_ex (\<lambda>g. g \<in> set (genre sel)) (genre m)) movies)
          then filter (\<lambda>m. if movie_id m = movie_id sel then False
                         else list_ex (\<lambda>g. g \<in> set (genre sel)) (genre m)) movies
          else filter (\<lambda>m. movie_id m \<noteq> movie_id sel) movies)"
    and r: "r = scoreCandidate sel (description sel @ js '' '' @ join (js '' '') (genre sel)) algorithm
                 (refTitleWordsOf sel) m"
    unfolding getRecommendations_def Let_def
    using set_take_sort_key by fastforce
  from candidates_exclude[OF m] r show ?thesis by blast
qed

lemma scoreCandidate_sel [simp]:
  "movie_id (scoreCandidate sel txt alg ws m) = movie_id m"
  "similarityScore (scoreCandidate sel txt alg ws m)
     = calculateMovieSimilarity m txt alg (Some sel) + franchiseBonusOf ws m"
  by (simp_all add: scoreCandidate_def Let_def)

lemma searchEntry_sel [simp]:
  "searchScore (searchEntry term sl m) = titleMatch term sl (title m) * 0.8
      + combinedSimilarity (description m @ js '' '' @ join (js '' '') (genre m)) term * 0.2"
  "titleScore (searchEntry term sl m) = titleMatch term sl (title m)"
  "contentScore (searchEntry term sl m) = combinedSimilarity (description m @ js '' '' @ join (js '' '') (genre m)) term"
  "title (searchEntry term sl m) = title m"
  "description (searchEntry term sl m) = description m"
  "genre (searchEntry term sl m) = genre m"
  "movie_id (searchEntry term sl m) = movie_id m"
  by (simp_all add: searchEntry_def Let_def)

lemma searchMovies_entries:
  assumes "r \<in> set (searchMovies movies term maxResults)"
  shows "\<exists>m\<in>set movies. r = searchEntry term (trim (toLowerCase term)) m \<and> searchScore r > 0.1"
proof -
  from assms have "r \<in> set (filter (\<lambda>r. searchScore r > 0.1)
                 (map (searchEntry term (trim (toLowerCase term))) movies))"
    unfolding searchMovies_def Let_def using set_take_sort_key by fastforce
  then show ?thesis by auto
qed

subsection \<open>The title cascade and the best match\<close>

lemma startsWith_prefix: "startsWith s p = prefix p s"
  by (induction s p rule: startsWith.induct) auto

lemma includesStr_sublist: "includesStr s sub = sublist sub s"
  by (induction s) (simp_all add: startsWith_prefix sublist_Cons_right)

lemma sublist_trim: "sublist (trim s) s"
proof -
  define y where "y = dropWhile isSpace s"
  have "y = rev (rev y)" by simp
  also have "rev y = takeWhile isSpace (rev y) @ dropWhile isSpace (rev y)"
    by simp
  finally have y: "y = rev (dropWhile isSpace (rev y)) @ rev (takeWhile isSpace (rev y))"
    by (simp only: rev_append)
  have "s = takeWhile isSpace s @ y"
    by (simp add: y_def)
  with y have "s = takeWhile isSpace s @ trim s @ rev (takeWhile isSpace (rev y))"
    by (simp add: trim_def y_def)
  then show ?thesis
    unfolding sublist_def by blast
qed

lemma sublist_same_length:
  assumes "sublist xs ys" "length xs = length ys"
  shows "xs = ys"
proof -
  from assms(1) obtain ps ss where "ys = ps @ xs @ ss"
    unfolding sublist_def by blast
  with assms(2) show ?thesis by simp
qed

lemma sublist_shorter:
  assumes "sublist xs ys" "xs \<noteq> ys"
  shows "length xs < length ys"
  using sublist_length_le[OF assms(1)] sublist_same_length[OF assms(1)] assms(2)
  by (cases "length xs = length ys") auto

lemma overlap_range:
  fixes ws :: "jsstring list"
  shows "0 \<le> real (fold (\<lambda>word n. if word \<in> S then n + 1 else n) ws (0::nat)) / real (max (length ws) k)"
    and "real (fold (\<lambda>word n. if word \<in> S then n + 1 else n) ws (0::nat)) / real (max (length ws) k) \<le> 1"
proof -
  have "fold (\<lambda>word n. if word \<in> S then n + 1 else n) ws (0::nat) \<le> max (length ws) k"
    by (simp add: fold_count le_max_iff_disj)
  from quotient_range[OF this]
  show "0 \<le> real (fold (\<lambda>word n. if word \<in> S then n + 1 else n) ws (0::nat)) / real (max (length ws) k)"
    and "real (fold (\<lambda>word n. if word \<in> S then n + 1 else n) ws (0::nat)) / real (max (length ws) k) \<le> 1"
    by simp_all
qed

lemma mix_less_one:
  fixes w l :: real
  assumes "w \<le> 1" "l < 1"
  shows "(w * 0.7) + (l * 0.3) < 1"
  using assms by simp

lemma cover_less_one:
  assumes "(a::nat) < b"
  shows "0.85 + (real a / real b) * 0.15 < (1::real)"
proof -
  from assms have "real a / real b < 1" by simp
  then show ?thesis by simp
qed

lemma titleMatch_less_one:
  assumes sl: "sl = trim (toLowerCase st)" and ne: "toLowerCase t \<noteq> sl"
  shows "titleMatch st sl t < 1"
proof -
  let ?tl = "toLowerCase t"
  show ?thesis
  proof (cases "includesStr ?tl sl")
    case True
    then have "sublist sl ?tl" by (simp add: includesStr_sublist)
    from sublist_shorter[OF this] ne have "length sl < length ?tl" by auto
    from cover_less_one[OF this] True ne show ?thesis
      by (simp add: titleMatch_def Let_def)
  next
    case False
    have lev: "levenshteinSimilarity t st < 1"
    proof (rule ccontr)
      assume "\<not> levenshteinSimilarity t st < 1"
      with levenshteinSimilarity_le_one[of t st] have "levenshteinSimilarity t st = 1"
        by simp
      from levenshteinSimilarity_one[OF this] sl have "sl = trim ?tl" by simp
      with sublist_trim[of ?tl] have "includesStr ?tl sl"
        by (simp add: includesStr_sublist)
      with False show False by simp
    qed
    show ?thesis
    proof (cases "includesStr sl ?tl")
      case True
      with False ne show ?thesis by (simp add: titleMatch_def Let_def)
    next
      case nb: False
      show ?thesis
      proof (cases "length (longWords sl) > 0 \<and> length (longWords ?tl) > 0")
        case True
        have "titleMatch st sl t =
           (real (fold (\<lambda>word n. if word \<in> set (longWords ?tl) then n + 1 else n) (longWords sl) (0::nat))
              / real (max (length (longWords sl)) (length (longWords ?tl)))) * 0.7
           + levenshteinSimilarity t st * 0.3"
          using True False nb ne by (simp add: titleMatch_def Let_def)
        also have "\<dots> < 1"
          using overlap_range(2) lev by (rule mix_less_one)
        finally show ?thesis .
      next
        case nw: False
        then have "titleMatch st sl t = levenshteinSimilarity t st"
          using False nb ne by (auto simp: titleMatch_def Let_def)
        with lev show ?thesis by simp
      qed
    qed
  qed
qed

lemma titleMatch_exact: "toLowerCase t = sl \<Longrightarrow> titleMatch st sl t = 1"
  by (simp add: titleMatch_def)

lemma titleMatch_one_iff:
  "(titleMatch st (trim (toLowerCase st)) t = 1) = (toLowerCase t = trim (toLowerCase st))"
  using titleMatch_less_one[OF refl, of t st] titleMatch_exact[of t "trim (toLowerCase st)" st]
  by fastforce

lemma titleMatch_le_one: "titleMatch st (trim (toLowerCase st)) t \<le> 1"
  using titleMatch_less_one[OF refl, of t st] titleMatch_exact[of t "trim (toLowerCase st)" st]
  by fastforce

lemma findClosestMatch_keepBest:
  "findClosestMatch movies st =
     fold (keepBest (\<lambda>m. titleMatch st (trim (toLowerCase st)) (title m))) movies (None, 0)"
proof -
  have "(\<lambda>m (bestMatch, highestSimilarity).
                 (let similarity = titleMatch st (trim (toLowerCase st)) (title m)
                  in if similarity > highestSimilarity then (Some m, similarity)
                     else (bestMatch, highestSimilarity)))
      = keepBest (\<lambda>m. titleMatch st (trim (toLowerCase st)) (title m))"
    by (auto simp: keepBest_def fun_eq_iff Let_def)
  then show ?thesis
    by (simp add: findClosestMatch_def Let_def)
qed

lemma fold_keepBest_le:
  "\<forall>m\<in>set ms. f m \<le> h \<Longrightarrow> fold (keepBest f) ms (b, h) = (b, h)"
  by (induction ms) (auto simp: keepBest_def)

lemma fold_keepBest_first:
  assumes "\<forall>m\<in>set ms. f m \<le> c" "h < c" "\<exists>m\<in>set ms. f m = c"
  shows "fold (keepBest f) ms (b, h) = (List.find (\<lambda>m. f m = c) ms, c)"
  using assms
proof (induction ms arbitrary: b h)
  case Nil
  then show ?case by simp
next
  case (Cons m ms)
  show ?case
  proof (cases "f m = c")
    case True
    with Cons.prems have "fold (keepBest f) (m # ms) (b, h) = fold (keepBest f) ms (Some m, c)"
      by (simp add: keepBest_def)
    also have "\<dots> = (Some m, c)"
      using Cons.prems(1) by (intro fold_keepBest_le) simp
    finally show ?thesis using True by simp
  next
    case False
    with Cons.prems have lt: "f m < c" and ex: "\<exists>m\<in>set ms. f m = c" and le: "\<forall>m\<in>set ms. f m \<le> c"
      by (auto simp: less_le)
    show ?thesis
    proof (cases "f m > h")
      case True
      then have "fold (keepBest f) (m # ms) (b, h) = fold (keepBest f) ms (Some m, f m)"
        by (simp add: keepBest_def)
      also have "\<dots> = (List.find (\<lambda>m. f m = c) ms, c)"
        using le lt ex by (rule Cons.IH)
      finally show ?thesis using False by simp
    next
      case nf: False
      then have "fold (keepBest f) (m # ms) (b, h) = fold (keepBest f) ms (b, h)"
        by (simp add: keepBest_def)
      also have "\<dots> = (List.find (\<lambda>m. f m = c) ms, c)"
        using le Cons.prems(2) ex by (rule Cons.IH)
      finally show ?thesis using False by simp
    qed
  qed
qed

lemma lowerUnit_space: "isSpace c \<Longrightarrow> lowerUnit c = [c]"
  by (cases c) (auto simp: lowerChar_def Let_def)

lemma lowerUnit_nonempty: "lowerUnit c \<noteq> []"
  by (cases c) simp_all

lemma toLowerCase_nonempty: "t \<noteq> [] \<Longrightarrow> toLowerCase t \<noteq> []"
  by (cases t) (simp_all add: toLowerCase_def lowerUnit_nonempty)

lemma toLowerCase_blank:
  "\<forall>c\<in>set s. isSpace c \<Longrightarrow> toLowerCase s = s"
  by (induction s) (simp_all add: toLowerCase_def lowerUnit_space)

lemma trim_lower_blank:
  assumes "\<forall>c\<in>set s. isSpace c"
  shows "trim (toLowerCase s) = []"
proof -
  have low: "toLowerCase s = s"
    using assms by (rule toLowerCase_blank)
  have dw: "dropWhile isSpace s = []"
    using assms by simp
  show ?thesis
    unfolding trim_def low dw by simp
qed

lemma titleMatch_blank: "t \<noteq> [] \<Longrightarrow> titleMatch st [] t = 0.85"
proof -
  assume "t \<noteq> []"
  then have "toLowerCase t \<noteq> []" by (rule toLowerCase_nonempty)
  moreover have "includesStr (toLowerCase t) []"
    by (simp add: includesStr_sublist)
  ultimately show ?thesis by (simp add: titleMatch_def Let_def)
qed

subsection \<open>The functions on the example movies\<close>

lemma example_recommendations:
  "map (\<lambda>r. (movie_id r, similarityScore r))
       (getRecommendations [starWars, alien, starWarsSequel] starWars (js ''jaccard'') 2)
   = [(StrId (js ''tt0080684''), 399 / 400), (NumId 2, 19 / 40)]"
proof -
  have rw: "refTitleWordsOf starWars = [(js ''star''), (js ''wars'')]"
    by code_simp
  have j1: "jaccardSimilarity (js ''crew meets creature crew meets creature Sci-Fi Horror'')
              (js ''rebels fight empire Sci-Fi'') = 0"
    by code_simp
  have j2: "jaccardSimilarity (js ''rebels flee empire rebels flee empire Sci-Fi'')
              (js ''rebels fight empire Sci-Fi'') = 1 / 2"
    by code_simp
  have g1: "genreSimilarity [(js ''Sci-Fi''), (js ''Horror'')] [(js ''Sci-Fi'')] = 1 / 2"
    by code_simp
  have g2: "genreSimilarity [(js ''Sci-Fi'')] [(js ''Sci-Fi'')] = 1"
    by code_simp
  have d1: "directorSimilarity (Some (js ''Ridley Scott'')) (Some (js ''George Lucas'')) = 0"
    by code_simp
  have d2: "directorSimilarity None (Some (js ''George Lucas'')) = 0"
    by code_simp
  have f1: "franchiseBonusOf [(js ''star''), (js ''wars'')] alien = 0"
    by code_simp
  have f2: "franchiseBonusOf [(js ''star''), (js ''wars'')] starWarsSequel = 1 / 4"
    by code_simp
  have s1: "scoreCandidate starWars (js ''rebels fight empire Sci-Fi'') (js ''jaccard'') [(js ''star''), (js ''wars'')] alien
      = \<lparr>movie_id = NumId 2, title = (js ''Alien''), year = 1979, rating = 8,
       genre = [(js ''Sci-Fi''), (js ''Horror'')], description = (js ''crew meets creature''),
       director = Some (js ''Ridley Scott''), similarityScore = 19 / 40\<rparr>"
    unfolding scoreCandidate_def calculateMovieSimilarity_def f1
    by (simp add: alien_def starWars_def textSimilarityBy_def ratingSimilarity_def j1 g1 d1)
  have s2: "scoreCandidate starWars (js ''rebels fight empire Sci-Fi'') (js ''jaccard'') [(js ''star''), (js ''wars'')] starWarsSequel
      = \<lparr>movie_id = StrId (js ''tt0080684''), title = (js ''Star Wars: Episode V''), year = 1980, rating = 9,
       genre = [(js ''Sci-Fi'')], description = (js ''rebels flee empire''),
       director = None, similarityScore = 399 / 400\<rparr>"
    unfolding scoreCandidate_def calculateMovieSimilarity_def f2
    by (simp add: starWarsSequel_def starWars_def textSimilarityBy_def ratingSimilarity_def j2 g2 d2)
  have rt: "description starWars @ js '' '' @ join (js '' '') (genre starWars) = (js ''rebels fight empire Sci-Fi'')"
    by (simp add: starWars_def)
  have ids: "movie_id starWars = NumId 1" "movie_id alien = NumId 2"
     "movie_id starWarsSequel = StrId (js ''tt0080684'')"
    by (simp_all add: starWars_def alien_def starWarsSequel_def)
  show ?thesis
    unfolding getRecommendations_def Let_def rt rw
    by (simp add: ids s1 s2)
qed

lemma example_search:
  "map (\<lambda>r. (movie_id r, searchScore r, titleScore r, contentScore r))
       (searchMovies [alien, uptownGirls, up] (js ''UP '') 5)
   = [(NumId 3, 4 / 5, 1, 0), (NumId 4, 7 / 10, 7 / 8, 0)]"
proof -
  have t: "trim (toLowerCase (js ''UP '')) = (js ''up'')"
    by code_simp
  have p: "preprocessText (js ''UP '') = []"
    by code_simp
  have c: "cosineSimilarity x (js ''UP '') = 0" for x
    by (simp add: cosineSimilarity_def Let_def p)
  have j: "jaccardSimilarity x (js ''UP '') = 0" for x
    by (simp add: jaccardSimilarity_def Let_def p newSet_def)
  have l1: "levenshteinSimilarity (js ''crew meets creature Sci-Fi Horror'') (js ''UP '') = 0"
    by code_simp
  have l2: "levenshteinSimilarity (js ''nanny grows Comedy'') (js ''UP '') = 0"
    by code_simp
  have l3: "levenshteinSimilarity (js ''old man flies house Animation'') (js ''UP '') = 0"
    by code_simp
  have t1: "titleMatch (js ''UP '') (js ''up'') (js ''Alien'') = 0"
    by code_simp
  have t2: "titleMatch (js ''UP '') (js ''up'') (js ''Uptown Girls'') = 7 / 8"
    by code_simp
  have t3: "titleMatch (js ''UP '') (js ''up'') (js ''Up'') = 1"
    by code_simp
  have e1: "searchEntry (js ''UP '') (js ''up'') alien =
     \<lparr>movie_id = NumId 2, title = (js ''Alien''), year = 1979, rating = 8,
       genre = [(js ''Sci-Fi''), (js ''Horror'')], description = (js ''crew meets creature''),
       director = Some (js ''Ridley Scott''), searchScore = 0, titleScore = 0, contentScore = 0\<rparr>"
    by (simp add: searchEntry_def alien_def combinedSimilarity_def c j l1 t1)
  have e2: "searchEntry (js ''UP '') (js ''up'') uptownGirls =
     \<lparr>movie_id = NumId 4, title = (js ''Uptown Girls''), year = 2003, rating = 6,
       genre = [(js ''Comedy'')], description = (js ''nanny grows''),
       director = None, searchScore = 7 / 10, titleScore = 7 / 8, contentScore = 0\<rparr>"
    by (simp add: searchEntry_def uptownGirls_def combinedSimilarity_def c j l2 t2)
  have e3: "searchEntry (js ''UP '') (js ''up'') up =
     \<lparr>movie_id = NumId 3, title = (js ''Up''), year = 2009, rating = 8,
       genre = [(js ''Animation'')], description = (js ''old man flies house''),
       director = Some (js ''Pete Docter''), searchScore = 4 / 5, titleScore = 1, contentScore = 0\<rparr>"
    by (simp add: searchEntry_def up_def combinedSimilarity_def c j l3 t3)
  show ?thesis
    unfolding searchMovies_def Let_def t
    by (simp add: e1 e2 e3)
qed

subsection \<open>The cache of the normalizer does not change its results\<close>

lemma cacheOk_lookup:
  "cacheOk cache \<Longrightarrow> map_of cache s = Some r \<Longrightarrow> r = preprocessText s"
  by (induction cache) (auto simp: cacheOk_def split: if_splits)

lemma cacheOk_update:
  "cacheOk cache \<Longrightarrow> cacheOk (AList.update s (preprocessText s) cache)"
  by (induction cache) (auto simp: cacheOk_def)

lemma preprocessTextCached_transparent:
  assumes "cacheOk cache"
  shows "fst (preprocessTextCached cache s) = preprocessText s"
    and "cacheOk (snd (preprocessTextCached cache s))"
  using assms cacheOk_lookup[OF assms, of s] cacheOk_update[OF assms, of s]
  by (auto simp: preprocessTextCached_def Let_def split: option.splits)

section \<open>The claims\<close>

subsection \<open>Recommendations\<close>

text \<open>
  C1. For every catalog, selected movie, algorithm and \<open>topN\<close>, the list returned by
  \<open>getRecommendations\<close> has no entry with the identifier of the selected movie, has at
  most \<open>topN\<close> entries, and is sorted in descending order of \<open>similarityScore\<close>, which for
  every entry is the base similarity of a catalog movie plus its franchise bonus.
\<close>

theorem getRecommendations_excludes_bounded_sorted:
  "(\<forall>r\<in>set (getRecommendations movies selectedMovie algorithm topN).
       movie_id r \<noteq> movie_id selectedMovie \<and>
       (\<exists>m\<in>set movies. movie_id r = movie_id m \<and>
          similarityScore r =
            calculateMovieSimilarity m
              (description selectedMovie @ js '' '' @ join (js '' '') (genre selectedMovie))
              algorithm (Some selectedMovie)
            + franchiseBonusOf (refTitleWordsOf selectedMovie) m))
   \<and> length (getRecommendations movies selectedMovie algorithm topN) \<le> topN
   \<and> sorted_wrt (\<lambda>a b. similarityScore a \<ge> similarityScore b)
        (getRecommendations movies selectedMovie algorithm topN)"
proof (intro conjI ballI)
  fix r assume r: "r \<in> set (getRecommendations movies selectedMovie algorithm topN)"
  from getRecommendations_entries[OF r]
  show "movie_id r \<noteq> movie_id selectedMovie" by auto
  from getRecommendations_entries[OF r]
  show "\<exists>m\<in>set movies. movie_id r = movie_id m \<and>
          similarityScore r =
            calculateMovieSimilarity m
              (description selectedMovie @ js '' '' @ join (js '' '') (genre selectedMovie))
              algorithm (Some selectedMovie)
            + franchiseBonusOf (refTitleWordsOf selectedMovie) m"
    by auto
next
  show "length (getRecommendations movies selectedMovie algorithm topN) \<le> topN"
    by (simp add: getRecommendations_def Let_def)
next
  show "sorted_wrt (\<lambda>a b. similarityScore a \<ge> similarityScore b)
        (getRecommendations movies selectedMovie algorithm topN)"
    unfolding getRecommendations_def Let_def by (rule sorted_desc_take)
qed

theorem getRecommendations_excludes_bounded_sorted_witness:
  "map (\<lambda>r. (movie_id r, similarityScore r))
       (getRecommendations [starWars, alien, starWarsSequel] starWars (js ''jaccard'') 2)
     = [(StrId (js ''tt0080684''), 399 / 400), (NumId 2, 19 / 40)]
   \<and> list_all (\<lambda>r. movie_id r \<noteq> movie_id starWars)
        (getRecommendations [starWars, alien, starWarsSequel] starWars (js ''jaccard'') 2)
   \<and> length (getRecommendations [starWars, alien, starWarsSequel] starWars (js ''jaccard'') 2) \<le> 2
   \<and> sorted_wrt (\<lambda>a b. similarityScore a \<ge> similarityScore b)
        (getRecommendations [starWars, alien, starWarsSequel] starWars (js ''jaccard'') 2)"
  using example_recommendations
    getRecommendations_excludes_bounded_sorted[of "[starWars, alien, starWarsSequel]" starWars
      "(js ''jaccard'')" 2]
  unfolding list_all_iff by blast

subsection \<open>Ranges of the primitives\<close>

text \<open>
  C2. The claim is that for every pair of input strings \<open>jaccardSimilarity\<close>,
  \<open>cosineSimilarity\<close> and \<open>levenshteinSimilarity\<close> each return a value between 0 and 1.
  The first two do, and \<open>levenshteinSimilarity\<close> never exceeds 1, but it divides a
  distance computed on the lowercased strings by the longer length of the strings as given:
  where lowercasing lengthens a string the quotient exceeds 1. On the one-letter string
  \<open>U+0130\<close> against the empty string, the function returns \<open>-1\<close>.
\<close>

theorem levenshteinSimilarity_below_zero:
  "levenshteinSimilarity [CapitalIDot] [] = - 1"
  by code_simp

text \<open>
  What holds of the three primitives: Jaccard and cosine similarity lie between 0 and 1,
  Levenshtein similarity is at most 1, and it is at least 0 for two strings whose lengths
  lowercasing keeps.
\<close>

lemma similarity_primitives_range:
  "(0 \<le> jaccardSimilarity a b \<and> jaccardSimilarity a b \<le> 1) \<and>
   (0 \<le> cosineSimilarity a b \<and> cosineSimilarity a b \<le> 1) \<and>
   levenshteinSimilarity a b \<le> 1 \<and>
   (length (toLowerCase a) = length a \<and> length (toLowerCase b) = length b
      \<longrightarrow> 0 \<le> levenshteinSimilarity a b)"
  using jaccardSimilarity_range[of a b] cosineSimilarity_range[of a b]
    levenshteinSimilarity_range[of a b] levenshteinSimilarity_le_one[of a b]
  by blast

subsection \<open>The fixed weights\<close>

text \<open>
  C3. With a reference movie, \<open>calculateMovieSimilarity\<close> returns 0.365 times the text
  similarity plus 0.25 times the genre similarity plus 0.35 times the rating similarity plus
  0.035 times the director similarity; with no reference movie it returns the text similarity
  alone. The text similarity is that of the chosen algorithm between the movie text
  (description, description again, genres) and the query.
\<close>

theorem calculateMovieSimilarity_weights:
  "calculateMovieSimilarity m query algorithm (Some r) =
     0.365 * textSimilarityBy algorithm
               (description m @ js '' '' @ description m @ js '' '' @ join (js '' '') (genre m)) query
     + 0.25 * genreSimilarity (genre m) (genre r)
     + 0.35 * ratingSimilarity (rating m) (rating r)
     + 0.035 * directorSimilarity (director m) (director r)
   \<and> calculateMovieSimilarity m query algorithm None =
       textSimilarityBy algorithm
         (description m @ js '' '' @ description m @ js '' '' @ join (js '' '') (genre m)) query"
  by (simp add: calculateMovieSimilarity_def Let_def)

theorem calculateMovieSimilarity_weights_witness:
  "calculateMovieSimilarity alien (js ''rebels fight empire Sci-Fi'') (js ''jaccard'') (Some starWars) = 19 / 40
   \<and> calculateMovieSimilarity alien (js ''rebels fight empire Sci-Fi'') (js ''jaccard'') None = 0"
proof -
  have j: "jaccardSimilarity (js ''crew meets creature crew meets creature Sci-Fi Horror'')
              (js ''rebels fight empire Sci-Fi'') = 0"
    by code_simp
  have g: "genreSimilarity [(js ''Sci-Fi''), (js ''Horror'')] [(js ''Sci-Fi'')] = 1 / 2"
    by code_simp
  have d: "directorSimilarity (Some (js ''Ridley Scott'')) (Some (js ''George Lucas'')) = 0"
    by code_simp
  show ?thesis
    using calculateMovieSimilarity_weights[of alien "(js ''rebels fight empire Sci-Fi'')"
        "(js ''jaccard'')" starWars]
    by (simp add: alien_def starWars_def textSimilarityBy_def ratingSimilarity_def j g d)
qed

text \<open>
  C4. \<open>combinedSimilarity a b\<close> is 0.6 times the cosine similarity plus 0.3 times the
  Jaccard similarity plus 0.1 times the Levenshtein similarity, and the three weights sum
  to 1.
\<close>

theorem combinedSimilarity_weights:
  "combinedSimilarity a b =
     0.6 * cosineSimilarity a b + 0.3 * jaccardSimilarity a b + 0.1 * levenshteinSimilarity a b
   \<and> (0.6 + 0.3 + 0.1 = (1::real))"
  by (simp add: combinedSimilarity_def Let_def)

theorem combinedSimilarity_weights_witness:
  "combinedSimilarity (js ''Cat'') (js ''cat'') =
     0.6 * cosineSimilarity (js ''Cat'') (js ''cat'')
     + 0.3 * jaccardSimilarity (js ''Cat'') (js ''cat'')
     + 0.1 * levenshteinSimilarity (js ''Cat'') (js ''cat'')
   \<and> levenshteinSimilarity (js ''Cat'') (js ''cat'') = 1
   \<and> jaccardSimilarity (js ''Cat'') (js ''cat'') = 1"
proof -
  have "levenshteinSimilarity (js ''Cat'') (js ''cat'') = 1"
    by code_simp
  moreover have "jaccardSimilarity (js ''Cat'') (js ''cat'') = 1"
    by code_simp
  ultimately show ?thesis
    using combinedSimilarity_weights[of "(js ''Cat'')" "(js ''cat'')"]
    by (simp only: simp_thms)
qed

subsection \<open>Two rows against the full matrix\<close>

text \<open>
  C5 (as amended). Whenever the lengths of the two lowercased strings differ by at most
  half of the longer one, the two-row \<open>levenshteinDistance\<close> returns the same value as the
  full-matrix computation of the copy of the module under \<^verbatim>\<open>js/\<close>.
\<close>

theorem levenshteinDistance_two_row_eq_full:
  assumes "2 * nat \<bar>int (length (toLowerCase a)) - int (length (toLowerCase b))\<bar>
             \<le> max (length (toLowerCase a)) (length (toLowerCase b))"
  shows "levenshteinDistance a b = levenshteinDistance_full a b"
proof -
  from assms have "\<not> max (length (toLowerCase a)) (length (toLowerCase b))
        < 2 * nat \<bar>int (length (toLowerCase a)) - int (length (toLowerCase b))\<bar>"
    by (simp only: not_less)
  then have "levenshteinDistance a b =
      cell (toLowerCase a) (toLowerCase b) (length (toLowerCase a)) (length (toLowerCase b))"
    by (simp only: levenshteinDistance_cell if_False)
  then show ?thesis
    by (simp only: levenshteinDistance_full_cell)
qed

theorem levenshteinDistance_two_row_eq_full_witness:
  "2 * nat \<bar>int (length (toLowerCase (js ''kitten''))) - int (length (toLowerCase (js ''sitting'')))\<bar>
      \<le> max (length (toLowerCase (js ''kitten''))) (length (toLowerCase (js ''sitting'')))
   \<and> levenshteinDistance (js ''kitten'') (js ''sitting'')
       = levenshteinDistance_full (js ''kitten'') (js ''sitting'')"
  using levenshteinDistance_two_row_eq_full[of "js ''kitten''" "js ''sitting''"]
  by (simp add: length_toLowerCase_js)

text \<open>
  C5 as stated fails when the lengths differ by more than half of the longer length: the
  two-row version then returns the longer length without running the loops.
\<close>

theorem levenshteinDistance_two_row_counterexample:
  "levenshteinDistance (js ''a'') (js ''abc'') = 3 \<and> levenshteinDistance_full (js ''a'') (js ''abc'') = 2"
  by code_simp

subsection \<open>The closest title\<close>

text \<open>
  C6 (as amended). For every catalog with a movie whose lowercased title equals the
  lowercased and trimmed search term, \<open>findClosestMatch\<close> returns the first such movie of
  the catalog, with confidence exactly 1.
\<close>

theorem findClosestMatch_exact_title:
  assumes "\<exists>m\<in>set movies. toLowerCase (title m) = trim (toLowerCase searchTerm)"
  shows "findClosestMatch movies searchTerm
           = (List.find (\<lambda>m. toLowerCase (title m) = trim (toLowerCase searchTerm)) movies, 1)"
proof -
  let ?f = "\<lambda>m. titleMatch searchTerm (trim (toLowerCase searchTerm)) (title m)"
  have le: "\<forall>m\<in>set movies. ?f m \<le> 1"
    by (simp add: titleMatch_le_one)
  have ex: "\<exists>m\<in>set movies. ?f m = 1"
    using assms by (simp add: titleMatch_one_iff)
  have "fold (keepBest ?f) movies (None, 0) = (List.find (\<lambda>m. ?f m = 1) movies, 1)"
    using le _ ex by (rule fold_keepBest_first) simp
  then show ?thesis
    by (simp add: findClosestMatch_keepBest titleMatch_one_iff)
qed

theorem findClosestMatch_exact_title_witness:
  "(\<exists>m\<in>set [alien, starWars]. toLowerCase (title m) = trim (toLowerCase (js ''  STAR wars '')))
   \<and> findClosestMatch [alien, starWars] (js ''  STAR wars '') = (Some starWars, 1)"
proof -
  have t: "trim (toLowerCase (js ''  STAR wars '')) = (js ''star wars'')"
    by code_simp
  have a: "toLowerCase (title alien) = (js ''alien'')" and b: "toLowerCase (title starWars) = (js ''star wars'')"
    by code_simp+
  have ex: "\<exists>m\<in>set [alien, starWars]. toLowerCase (title m) = trim (toLowerCase (js ''  STAR wars ''))"
    by (simp add: t a b)
  from findClosestMatch_exact_title[OF ex] ex show ?thesis
    by (simp add: t a b)
qed

text \<open>
  C6 as stated fails for a title that begins or ends with whitespace: the search term is
  trimmed, the title is not, so a term equal to the title is only a substring match.
\<close>

theorem findClosestMatch_padded_title_counterexample:
  "toLowerCase (title paddedUp) = toLowerCase (js '' Up'')
   \<and> findClosestMatch [paddedUp] (js '' Up'') = (Some paddedUp, 19 / 20)"
  by code_simp

subsection \<open>Search\<close>

text \<open>
  C7. For every catalog, search term and \<open>maxResults\<close>, \<open>searchMovies\<close> returns at most
  \<open>maxResults\<close> entries; every entry has a \<open>searchScore\<close> strictly greater than 0.1 that is
  0.8 times its \<open>titleScore\<close> plus 0.2 times its \<open>contentScore\<close>; and the entries are sorted
  in descending order of \<open>searchScore\<close>.
\<close>

theorem searchMovies_bounded_filtered_sorted:
  "length (searchMovies movies searchTerm maxResults) \<le> maxResults
   \<and> (\<forall>r\<in>set (searchMovies movies searchTerm maxResults).
         searchScore r > 0.1
         \<and> searchScore r = 0.8 * titleScore r + 0.2 * contentScore r
         \<and> titleScore r = titleMatch searchTerm (trim (toLowerCase searchTerm)) (title r)
         \<and> contentScore r
             = combinedSimilarity (description r @ js '' '' @ join (js '' '') (genre r)) searchTerm)
   \<and> sorted_wrt (\<lambda>a b. searchScore a \<ge> searchScore b)
        (searchMovies movies searchTerm maxResults)"
proof (intro conjI ballI)
  show "length (searchMovies movies searchTerm maxResults) \<le> maxResults"
    by (simp add: searchMovies_def Let_def)
next
  fix r assume "r \<in> set (searchMovies movies searchTerm maxResults)"
  from searchMovies_entries[OF this] obtain m where
    r: "r = searchEntry searchTerm (trim (toLowerCase searchTerm)) m" and s: "searchScore r > 0.1"
    by blast
  show "searchScore r > 0.1" by (rule s)
  show "searchScore r = 0.8 * titleScore r + 0.2 * contentScore r"
    unfolding r by simp
  show "titleScore r = titleMatch searchTerm (trim (toLowerCase searchTerm)) (title r)"
    unfolding r by simp
  show "contentScore r = combinedSimilarity (description r @ js '' '' @ join (js '' '') (genre r)) searchTerm"
    unfolding r by simp
next
  show "sorted_wrt (\<lambda>a b. searchScore a \<ge> searchScore b)
        (searchMovies movies searchTerm maxResults)"
    unfolding searchMovies_def Let_def by (rule sorted_desc_take)
qed

theorem searchMovies_bounded_filtered_sorted_witness:
  "map (\<lambda>r. (movie_id r, searchScore r, titleScore r, contentScore r))
       (searchMovies [alien, uptownGirls, up] (js ''UP '') 5)
     = [(NumId 3, 4 / 5, 1, 0), (NumId 4, 7 / 10, 7 / 8, 0)]
   \<and> length (searchMovies [alien, uptownGirls, up] (js ''UP '') 5) \<le> 5
   \<and> list_all (\<lambda>r. searchScore r > 0.1 \<and> searchScore r = 0.8 * titleScore r + 0.2 * contentScore r)
        (searchMovies [alien, uptownGirls, up] (js ''UP '') 5)
   \<and> sorted_wrt (\<lambda>a b. searchScore a \<ge> searchScore b)
        (searchMovies [alien, uptownGirls, up] (js ''UP '') 5)"
  using example_search
    searchMovies_bounded_filtered_sorted[of "[alien, uptownGirls, up]" "(js ''UP '')" 5]
  unfolding list_all_iff by blast

subsection \<open>Symmetry and self-similarity\<close>

text \<open>
  C8. Each text similarity primitive is symmetric in its two arguments; for
  \<open>levenshteinSimilarity\<close> this includes the regime in which the distance is cut short by
  the test on the lengths.
\<close>

theorem similarity_primitives_symmetric:
  "jaccardSimilarity a b = jaccardSimilarity b a \<and>
   cosineSimilarity a b = cosineSimilarity b a \<and>
   levenshteinSimilarity a b = levenshteinSimilarity b a"
  using jaccardSimilarity_sym[of a b] cosineSimilarity_sym[of a b] levenshteinSimilarity_sym[of a b]
  by (simp only: simp_thms)

theorem similarity_primitives_symmetric_witness:
  "jaccardSimilarity (js ''the great movie'') (js ''a great film'') = 1 / 3 \<and>
   jaccardSimilarity (js ''a great film'') (js ''the great movie'') = 1 / 3 \<and>
   levenshteinSimilarity (js ''a'') (js ''abc'') = 0 \<and>
   levenshteinSimilarity (js ''abc'') (js ''a'') = 0 \<and>
   cosineSimilarity (js ''the great movie'') (js ''a great film'')
     = cosineSimilarity (js ''a great film'') (js ''the great movie'')"
proof -
  have "jaccardSimilarity (js ''the great movie'') (js ''a great film'') = 1 / 3"
    by code_simp
  moreover have "levenshteinSimilarity (js ''a'') (js ''abc'') = 0"
    by code_simp
  ultimately show ?thesis
    using similarity_primitives_symmetric[of "(js ''the great movie'')" "(js ''a great film'')"]
      similarity_primitives_symmetric[of "(js ''a'')" "(js ''abc'')"]
    by (simp only: simp_thms)
qed

text \<open>
  C9. A string whose normalization yields at least one token has Jaccard similarity 1 with
  itself, and every string has Levenshtein similarity 1 with itself.
\<close>

theorem similarity_self:
  "(preprocessText a \<noteq> [] \<longrightarrow> jaccardSimilarity a a = 1) \<and> levenshteinSimilarity b b = 1"
  using jaccardSimilarity_same[of a] levenshteinSimilarity_same[of b] by blast

theorem similarity_self_witness:
  "preprocessText (js ''The Great Movie'') \<noteq> [] \<and> jaccardSimilarity (js ''The Great Movie'') (js ''The Great Movie'') = 1
   \<and> levenshteinSimilarity (js ''The Great Movie'') (js ''The Great Movie'') = 1"
proof -
  have "preprocessText (js ''The Great Movie'') \<noteq> []" by code_simp
  then show ?thesis
    using similarity_self[of "(js ''The Great Movie'')" "(js ''The Great Movie'')"] by blast
qed

subsection \<open>A blank search term\<close>

text \<open>
  C10. For every non-empty catalog in which every title is non-empty, \<open>findClosestMatch\<close>
  with an empty or whitespace-only search term returns the first movie of the catalog with
  confidence exactly 0.85: the trimmed term is empty, hence a substring of every title, and
  the length ratio is 0.
\<close>

theorem findClosestMatch_blank_term:
  assumes "movies \<noteq> []" and "\<forall>m\<in>set movies. title m \<noteq> []"
    and "\<forall>c\<in>set searchTerm. isSpace c"
  shows "findClosestMatch movies searchTerm = (Some (hd movies), 0.85)"
proof -
  let ?f = "\<lambda>m. titleMatch searchTerm (trim (toLowerCase searchTerm)) (title m)"
  have sl: "trim (toLowerCase searchTerm) = []"
    using assms(3) by (rule trim_lower_blank)
  have all: "\<forall>m\<in>set movies. ?f m = 0.85"
    using assms(2) by (simp add: sl titleMatch_blank)
  then have le: "\<forall>m\<in>set movies. ?f m \<le> 0.85" by simp
  have ex: "\<exists>m\<in>set movies. ?f m = 0.85"
    using all assms(1) by (cases movies) auto
  have "fold (keepBest ?f) movies (None, 0) = (List.find (\<lambda>m. ?f m = 0.85) movies, 0.85)"
    using le _ ex by (rule fold_keepBest_first) simp
  moreover have "List.find (\<lambda>m. ?f m = 0.85) movies = Some (hd movies)"
    using all assms(1) by (cases movies) auto
  ultimately show ?thesis
    by (simp add: findClosestMatch_keepBest)
qed

theorem findClosestMatch_blank_term_witness:
  "[alien, starWars] \<noteq> [] \<and> list_all (\<lambda>m. title m \<noteq> []) [alien, starWars]
   \<and> list_all isSpace (js ''  '')
   \<and> findClosestMatch [alien, starWars] (js ''  '') = (Some alien, 0.85)"
proof -
  have a: "\<forall>m\<in>set [alien, starWars]. title m \<noteq> []"
    by (simp add: alien_def starWars_def)
  have b: "\<forall>c\<in>set (js ''  ''). isSpace c"
    by (simp add: js_def)
  from findClosestMatch_blank_term[OF _ a b] a b show ?thesis
    unfolding list_all_iff by simp
qed

end
